theory Spec2Isabelle
  imports Main
begin

section \<open>JavaScript array operations used by the coordinator\<close>

text \<open>
  \<open>Array.prototype.indexOf\<close>: the position of the first element strictly equal to the
  argument, \<open>-1\<close> when there is none.
\<close>

fun indexOf :: "'a list \<Rightarrow> 'a \<Rightarrow> int" where
  "indexOf [] x = - 1"
| "indexOf (y # ys) x =
     (if y = x then 0
      else (let i = indexOf ys x in if i = - 1 then - 1 else i + 1))"

text \<open>
  \<open>array.splice(index, 1)\<close>: removes one element at \<open>index\<close>; a negative start counts
  from the end and is clamped at 0, a start beyond the end removes nothing.
\<close>

definition splice1 :: "'a list \<Rightarrow> int \<Rightarrow> 'a list" where
  "splice1 xs index =
     (let n = int (length xs);
          start = (if index < 0 then max (n + index) 0 else min index n)
      in take (nat start) xs @ drop (nat start + 1) xs)"

text \<open>\<open>array.unshift(x)\<close>: inserts at the front.\<close>

definition unshift :: "'a \<Rightarrow> 'a list \<Rightarrow> 'a list" where
  "unshift x xs = x # xs"

text \<open>
  An indexed read \<open>array[i]\<close>: \<open>undefined\<close> (here \<open>None\<close>) when \<open>i\<close> is not a position of
  the array.
\<close>

definition at_index :: "'a list \<Rightarrow> int \<Rightarrow> 'a option" where
  "at_index xs i = (if 0 \<le> i \<and> i < int (length xs) then Some (xs ! nat i) else None)"

text \<open>\<open>array.forEach((x, index) => ...)\<close> with the effect of the callback on a state.\<close>

fun forEach_from :: "nat \<Rightarrow> 'a list \<Rightarrow> ('a \<Rightarrow> nat \<Rightarrow> 's \<Rightarrow> 's) \<Rightarrow> 's \<Rightarrow> 's" where
  "forEach_from i [] f s = s"
| "forEach_from i (x # xs) f s = forEach_from (Suc i) xs f (f x i s)"

definition forEach :: "'a list \<Rightarrow> ('a \<Rightarrow> nat \<Rightarrow> 's \<Rightarrow> 's) \<Rightarrow> 's \<Rightarrow> 's" where
  "forEach xs f s = forEach_from 0 xs f s"

text \<open>\<open>firstOrDefault(array)\<close> of \<open>vs/base/common/arrays\<close>: \<open>array[0]\<close>.\<close>

definition firstOrDefault :: "'a option list \<Rightarrow> 'a option" where
  "firstOrDefault xs = (case at_index xs 0 of None \<Rightarrow> None | Some x \<Rightarrow> x)"


section \<open>Data model\<close>

text \<open>
  Editor parts, documents and group views are objects compared by identity; a part and a
  document are represented by their identity alone. A group view carries its identifier
  (\<open>group.id\<close>, a \<open>number\<close>).
\<close>

type_synonym part = nat
type_synonym document = nat
type_synonym GroupIdentifier = int

record IEditorGroupView =
  view_ref :: nat
  group_id :: GroupIdentifier

text \<open>The argument type \<open>IEditorGroupView | GroupIdentifier\<close>.\<close>

datatype group_ref = GroupView IEditorGroupView | Identifier GroupIdentifier

text \<open>The argument type of \<open>getPart\<close>: a group, an identifier, or an \<open>HTMLElement\<close>.\<close>

record HTMLElement =
  ownerDocument :: document

datatype part_input = OfGroup group_ref | OfElement HTMLElement

datatype GroupsOrder = CREATION_TIME | MOST_RECENTLY_ACTIVE | GRID_APPEARANCE

datatype GroupLocation = FIRST | LAST | NEXT | PREVIOUS

datatype GroupDirection = UP | DOWN | LEFT | RIGHT

text \<open>\<open>IFindGroupScope\<close>: a direction or a location.\<close>

record IFindGroupScope =
  direction :: "GroupDirection option"
  location :: "GroupLocation option"

datatype error = InvalidEditorGroup | PartError string

text \<open>
  \<open>localize(key, message, arg)\<close>: the localized display string, kept as the call's
  arguments; \<open>nls_arg\<close> is the ordinal shown in the label.
\<close>

datatype localized = Localize (nls_key: string) (nls_message: string) (nls_arg: nat)

record IRectangle =
  rect_x :: int
  rect_y :: int
  rect_width :: int
  rect_height :: int

record ('st, 'z) IAuxiliaryEditorPartState =
  state :: 'st
  bounds :: "IRectangle option"
  zoomLevel :: "'z option"

record ('st, 'z) IEditorPartsUIState =
  auxiliary :: "('st, 'z) IAuxiliaryEditorPartState list"
  mru :: "int list"

record Window =
  screenX :: int
  screenY :: int
  outerWidth :: int
  outerHeight :: int

text \<open>
  The collaborators the coordinator calls and that live outside this file: the methods of
  \<open>EditorPart\<close> (per part), the window of a part's container and its zoom level, and the
  active document.
\<close>

record ('st, 'z) collaborators =
  part_hasGroup :: "part \<Rightarrow> GroupIdentifier \<Rightarrow> bool"
  part_getGroup :: "part \<Rightarrow> GroupIdentifier \<Rightarrow> IEditorGroupView option"
  part_getGroups :: "part \<Rightarrow> GroupsOrder \<Rightarrow> IEditorGroupView list"
  part_findGroup :: "part \<Rightarrow> IFindGroupScope \<Rightarrow> group_ref \<Rightarrow> bool \<Rightarrow> error + IEditorGroupView option"
  part_activeGroup :: "part \<Rightarrow> IEditorGroupView"
  part_document :: "part \<Rightarrow> document option"
  part_createState :: "part \<Rightarrow> 'st"
  part_willRestoreState :: "part \<Rightarrow> bool"
  getWindow :: "part \<Rightarrow> Window option"
  getZoomLevel :: "Window \<Rightarrow> 'z"
  getActiveDocument :: document

text \<open>
  The coordinator's own state: the fields of \<open>EditorParts\<close> that the operations below read
  or write. \<open>parts\<close> is the base class's \<open>_parts\<close> set in insertion order;
  \<open>groupsLabel\<close> holds the label each auxiliary part was last given;
  \<open>firedActiveGroupChange\<close> is what \<open>_onDidActiveGroupChange\<close> has fired so far;
  \<open>focusRequested\<close> is the group asked to take focus at the end of restoration.
\<close>

record ('st, 'z) EditorParts =
  mainPart :: part
  parts :: "part list"
  mostRecentActiveParts :: "part option list"
  groupsLabel :: "part \<rightharpoonup> localized"
  workspaceMemento :: "string \<rightharpoonup> ('st, 'z) IEditorPartsUIState"
  firedActiveGroupChange :: "IEditorGroupView list"
  focusRequested :: "IEditorGroupView option"
  isReady :: bool


section \<open>Registration, labels and the most-recently-active list\<close>

text \<open>
  Modelled from the spec: the base class \<open>MultiWindowParts\<close> (\<open>vs/workbench/browser/part\<close>)
  is not part of the sources. The Part Registry "tracks the live set of parts": registering
  adds to the set, unregistering deletes from it.
\<close>

definition super_registerPart :: "part \<Rightarrow> ('st, 'z) EditorParts \<Rightarrow> ('st, 'z) EditorParts" where
  "super_registerPart part s =
     s\<lparr>parts := (if part \<in> set (parts s) then parts s else parts s @ [part])\<rparr>"

definition super_unregisterPart :: "part \<Rightarrow> ('st, 'z) EditorParts \<Rightarrow> ('st, 'z) EditorParts" where
  "super_unregisterPart part s = s\<lparr>parts := removeAll part (parts s)\<rparr>"

text \<open>
  Modelled from the spec: \<open>getPartByDocument\<close> of the base class is not part of the sources.
  "For a display-surface handle, resolves the owning display surface and returns the Part
  bound to it"; the main part when no registered part is bound to the document.
\<close>

definition getPartByDocument :: "('st, 'z) collaborators \<Rightarrow> document \<Rightarrow> ('st, 'z) EditorParts \<Rightarrow> part" where
  "getPartByDocument E doc s =
     (case find (\<lambda>p. part_document E p = Some doc) (parts s) of
        Some p \<Rightarrow> p
      | None \<Rightarrow> mainPart s)"

definition activePart :: "('st, 'z) collaborators \<Rightarrow> ('st, 'z) EditorParts \<Rightarrow> part" where
  "activePart E s = getPartByDocument E (getActiveDocument E) s"

definition activeGroup :: "('st, 'z) collaborators \<Rightarrow> ('st, 'z) EditorParts \<Rightarrow> IEditorGroupView" where
  "activeGroup E s = part_activeGroup E (activePart E s)"

definition getGroupsLabel :: "nat \<Rightarrow> localized" where
  "getGroupsLabel index = Localize ''groupLabel'' ''Window {0}'' (index + 1)"

text \<open>
  \<open>part.notifyGroupsLabelChange(label)\<close>: the part now carries the label.
\<close>

definition notifyGroupsLabelChange :: "part \<Rightarrow> localized \<Rightarrow> ('st, 'z) EditorParts \<Rightarrow> ('st, 'z) EditorParts" where
  "notifyGroupsLabelChange part label s = s\<lparr>groupsLabel := (groupsLabel s)(part \<mapsto> label)\<rparr>"

definition registerPart :: "part \<Rightarrow> ('st, 'z) EditorParts \<Rightarrow> ('st, 'z) EditorParts" where
  "registerPart part s = super_registerPart part s"

definition unregisterPart :: "part \<Rightarrow> ('st, 'z) EditorParts \<Rightarrow> ('st, 'z) EditorParts" where
  "unregisterPart part s =
     (let s1 = super_unregisterPart part s
      in forEach (parts s1)
           (\<lambda>part index st.
              if part = mainPart st then st
              else notifyGroupsLabelChange part (getGroupsLabel index) st)
           s1)"

definition doUpdateMostRecentActive :: "part \<Rightarrow> bool \<Rightarrow> ('st, 'z) EditorParts \<Rightarrow> ('st, 'z) EditorParts" where
  "doUpdateMostRecentActive part makeMostRecentlyActive s =
     (let index = indexOf (mostRecentActiveParts s) (Some part);
          s1 = (if index \<noteq> - 1
                then s\<lparr>mostRecentActiveParts := splice1 (mostRecentActiveParts s) index\<rparr>
                else s)
      in if makeMostRecentlyActive
         then s1\<lparr>mostRecentActiveParts := unshift (Some part) (mostRecentActiveParts s1)\<rparr>
         else s1)"

text \<open>The listener that \<open>registerEditorPartListeners\<close> attaches to \<open>part.onDidFocus\<close>.\<close>

definition onDidFocus :: "('st, 'z) collaborators \<Rightarrow> part \<Rightarrow> ('st, 'z) EditorParts \<Rightarrow> ('st, 'z) EditorParts" where
  "onDidFocus E part s =
     (let s1 = doUpdateMostRecentActive part True s
      in if length (parts s1) > 1
         then s1\<lparr>firedActiveGroupChange := firedActiveGroupChange s1 @ [activeGroup E s1]\<rparr>
         else s1)"

text \<open>
  Disposing the store that \<open>registerPart\<close> returned: its entries run in the order they were
  added, first the base class's disposable (which unregisters the part), then the one that
  \<open>registerEditorPartListeners\<close> added to take the part out of the most-recently-active list.
\<close>

definition dispose_part :: "part \<Rightarrow> ('st, 'z) EditorParts \<Rightarrow> ('st, 'z) EditorParts" where
  "dispose_part part s = doUpdateMostRecentActive part False (unregisterPart part s)"

text \<open>
  The state the constructor leaves: the main part created and registered, the
  most-recently-active list holding it alone.
\<close>

definition constructor :: "part \<Rightarrow> (string \<rightharpoonup> ('st, 'z) IEditorPartsUIState) \<Rightarrow> ('st, 'z) EditorParts" where
  "constructor main memento =
     registerPart main
       \<lparr>mainPart = main, parts = [], mostRecentActiveParts = [Some main],
        groupsLabel = Map.empty, workspaceMemento = memento,
        firedActiveGroupChange = [], focusRequested = None, isReady = False\<rparr>"


section \<open>Resolving the part of a group\<close>

text \<open>
  \<open>getPart\<close>, over its declared argument types: \<open>OfElement\<close> is a value for which the
  test \<open>instanceof HTMLElement\<close> holds, \<open>OfGroup\<close> a group view or an identifier.
\<close>

definition getPart :: "('st, 'z) collaborators \<Rightarrow> part_input \<Rightarrow> ('st, 'z) EditorParts \<Rightarrow> part" where
  "getPart E groupOrElement s =
     (if length (parts s) > 1 then
        (case groupOrElement of
           OfElement element \<Rightarrow> getPartByDocument E (ownerDocument element) s
         | OfGroup grp \<Rightarrow>
             (let id = (case grp of Identifier n \<Rightarrow> n | GroupView g \<Rightarrow> group_id g)
              in case find (\<lambda>part. part_hasGroup E part id) (parts s) of
                   Some part \<Rightarrow> part
                 | None \<Rightarrow> mainPart s))
      else mainPart s)"


section \<open>Groups across parts\<close>

text \<open>
  \<open>distinct(array)\<close> of \<open>vs/base/common/arrays\<close>: keeps the first occurrence of each
  element.
\<close>

fun distinct_from :: "'a list \<Rightarrow> 'a list \<Rightarrow> 'a list" where
  "distinct_from seen [] = []"
| "distinct_from seen (x # xs) =
     (if x \<in> set seen then distinct_from seen xs else x # distinct_from (x # seen) xs)"

definition distinct_array :: "'a list \<Rightarrow> 'a list" where
  "distinct_array xs = distinct_from [] xs"

text \<open>
  \<open>parts.map(part => part.getGroups(order)).flat()\<close>; calling the method on an
  \<open>undefined\<close> entry raises.
\<close>

fun flat_groups :: "('st, 'z) collaborators \<Rightarrow> GroupsOrder \<Rightarrow> part option list \<Rightarrow> error + IEditorGroupView list" where
  "flat_groups E order [] = Inr []"
| "flat_groups E order (None # rest) = Inl (PartError ''undefined part'')"
| "flat_groups E order (Some part # rest) =
     (case flat_groups E order rest of
        Inl e \<Rightarrow> Inl e
      | Inr gs \<Rightarrow> Inr (part_getGroups E part order @ gs))"

definition getGroups :: "('st, 'z) collaborators \<Rightarrow> GroupsOrder \<Rightarrow> ('st, 'z) EditorParts \<Rightarrow> error + IEditorGroupView list" where
  "getGroups E order s =
     (if length (parts s) > 1 then
        (let ps = (case order of
                     GRID_APPEARANCE \<Rightarrow> map Some (parts s)
                   | CREATION_TIME \<Rightarrow> map Some (parts s)
                   | MOST_RECENTLY_ACTIVE \<Rightarrow>
                       distinct_array (mostRecentActiveParts s @ map Some (parts s)))
         in flat_groups E order ps)
      else Inr (part_getGroups E (mainPart s) order))"

fun getGroup_loop :: "('st, 'z) collaborators \<Rightarrow> GroupIdentifier \<Rightarrow> part list \<Rightarrow> IEditorGroupView option" where
  "getGroup_loop E identifier [] = None"
| "getGroup_loop E identifier (part # rest) =
     (case part_getGroup E part identifier of
        Some grp \<Rightarrow> Some grp
      | None \<Rightarrow> getGroup_loop E identifier rest)"

definition getGroup :: "('st, 'z) collaborators \<Rightarrow> GroupIdentifier \<Rightarrow> ('st, 'z) EditorParts \<Rightarrow> IEditorGroupView option" where
  "getGroup E identifier s =
     (case (if length (parts s) > 1 then getGroup_loop E identifier (parts s) else None) of
        Some grp \<Rightarrow> Some grp
      | None \<Rightarrow> part_getGroup E (mainPart s) identifier)"

definition assertGroupView :: "('st, 'z) collaborators \<Rightarrow> group_ref \<Rightarrow> ('st, 'z) EditorParts \<Rightarrow> error + IEditorGroupView" where
  "assertGroupView E grp s =
     (let groupView = (case grp of
                         Identifier n \<Rightarrow> getGroup E n s
                       | GroupView g \<Rightarrow> Some g)
      in case groupView of
           None \<Rightarrow> Inl InvalidEditorGroup
         | Some g \<Rightarrow> Inr g)"

text \<open>
  \<open>findGroup(scope, source = this.activeGroup, wrap)\<close>: \<open>source_arg = None\<close> is the
  omitted argument; \<open>wrap\<close> omitted is \<open>False\<close>.
\<close>

definition findGroup :: "('st, 'z) collaborators \<Rightarrow> IFindGroupScope \<Rightarrow> group_ref option \<Rightarrow> bool \<Rightarrow> ('st, 'z) EditorParts \<Rightarrow> error + IEditorGroupView option" where
  "findGroup E scope source_arg wrap s =
     (let source = (case source_arg of None \<Rightarrow> GroupView (activeGroup E s) | Some g \<Rightarrow> g);
          sourcePart = getPart E (OfGroup source) s
      in if length (parts s) > 1 then
           (case getGroups E GRID_APPEARANCE s of
              Inl e \<Rightarrow> Inl e
            | Inr groups \<Rightarrow>
                if location scope = Some FIRST \<or> location scope = Some LAST then
                  Inr (if location scope = Some FIRST then at_index groups 0
                       else at_index groups (int (length groups) - 1))
                else
                  (case part_findGroup E sourcePart scope source False of
                     Inl e \<Rightarrow> Inl e
                   | Inr (Some grp) \<Rightarrow> Inr (Some grp)
                   | Inr None \<Rightarrow>
                       if location scope = Some NEXT \<or> location scope = Some PREVIOUS then
                         (case assertGroupView E source s of
                            Inl e \<Rightarrow> Inl e
                          | Inr sourceGroup \<Rightarrow>
                              (let index = indexOf groups sourceGroup
                               in if location scope = Some NEXT then
                                    (let nextGroup = at_index groups (index + 1)
                                     in Inr (if nextGroup = None \<and> wrap then at_index groups 0
                                             else nextGroup))
                                  else
                                    (let previousGroup = at_index groups (index - 1)
                                     in Inr (if previousGroup = None \<and> wrap
                                             then at_index groups (int (length groups) - 1)
                                             else previousGroup))))
                       else part_findGroup E sourcePart scope source wrap))
         else part_findGroup E sourcePart scope source wrap)"


section \<open>Creating parts, restoring and saving state\<close>

text \<open>
  Modelled from the spec: \<open>AuxiliaryEditorPart.create\<close> is not part of the sources. The
  Part factory "constructs auxiliary Parts given creation options (label, initial bounds,
  initial layout state, initial zoom); returns the new Part"; the part it returns is
  registered with the coordinator. \<open>registerCreated\<close> is the settling of a creation
  request: the new part carries the label the request passed and is registered.
\<close>

definition registerCreated :: "part \<Rightarrow> localized \<Rightarrow> ('st, 'z) EditorParts \<Rightarrow> ('st, 'z) EditorParts" where
  "registerCreated part label s =
     registerPart part (s\<lparr>groupsLabel := (groupsLabel s)(part \<mapsto> label)\<rparr>)"

text \<open>
  \<open>createAuxiliaryEditorPart\<close> run to its end before any other handler: the label passed
  is the one the source computes when the request is made,
  \<open>getGroupsLabel(this._parts.size)\<close>.
\<close>

definition createAuxiliaryEditorPart :: "part \<Rightarrow> ('st, 'z) EditorParts \<Rightarrow> ('st, 'z) EditorParts" where
  "createAuxiliaryEditorPart part s =
     (let label = getGroupsLabel (length (parts s))
      in registerCreated part label s)"

definition EDITOR_PARTS_UI_STATE_STORAGE_KEY :: string where
  "EDITOR_PARTS_UI_STATE_STORAGE_KEY = ''editorparts.state''"

text \<open>
  The step of \<open>restoreParts\<close> under "Update MRU list", run once the creation requests
  have settled.
\<close>

definition restoreParts_updateMRU :: "('st, 'z) IEditorPartsUIState \<Rightarrow> ('st, 'z) EditorParts \<Rightarrow> ('st, 'z) EditorParts" where
  "restoreParts_updateMRU uiState s =
     (if length (mru uiState) = length (parts s)
      then s\<lparr>mostRecentActiveParts := map (\<lambda>index. at_index (parts s) index) (mru uiState)\<rparr>
      else s\<lparr>mostRecentActiveParts := map Some (parts s)\<rparr>)"

text \<open>
  \<open>restoreParts\<close>, with the awaited outcomes as an argument: \<open>outcomes\<close> lists the
  settled creation requests, one per entry of \<open>uiState.auxiliary\<close>, in the order in which
  their parts were registered: the part a request produced, or \<open>None\<close> when it was
  rejected (a missing outcome counts as rejected). The requests are made in one loop
  before any of them settles, so each passes the label computed from the parts
  registered at that moment; the parts are registered as the requests settle.
\<close>

definition restoreParts :: "('st, 'z) collaborators \<Rightarrow> part option list \<Rightarrow> ('st, 'z) EditorParts \<Rightarrow> ('st, 'z) EditorParts" where
  "restoreParts E outcomes s =
     (let s1 = (if part_willRestoreState E (mainPart s) then
                  (case workspaceMemento s EDITOR_PARTS_UI_STATE_STORAGE_KEY of
                     None \<Rightarrow> s
                   | Some uiState \<Rightarrow>
                       if length (auxiliary uiState) \<noteq> 0 then
                         (let label = getGroupsLabel (length (parts s));
                              s2 = fold (\<lambda>(auxiliaryEditorPartState, outcome) st.
                                            case outcome of
                                              Some part \<Rightarrow> registerCreated part label st
                                            | None \<Rightarrow> st)
                                        (zip (auxiliary uiState) outcomes) s
                          in restoreParts_updateMRU uiState s2)
                       else s)
                else s);
          mostRecentActivePart = firstOrDefault (mostRecentActiveParts s1);
          s3 = (case mostRecentActivePart of
                  Some part \<Rightarrow> s1\<lparr>focusRequested := Some (part_activeGroup E part)\<rparr>
                | None \<Rightarrow> s1)
      in s3\<lparr>isReady := True\<rparr>)"

definition saveState :: "('st, 'z) collaborators \<Rightarrow> ('st, 'z) EditorParts \<Rightarrow> ('st, 'z) EditorParts" where
  "saveState E s =
     (let uiState =
            \<lparr>auxiliary =
               map (\<lambda>part.
                      \<lparr>state = part_createState E part,
                       bounds = (case getWindow E part of
                                   Some auxiliaryWindow \<Rightarrow>
                                     Some \<lparr>rect_x = screenX auxiliaryWindow,
                                           rect_y = screenY auxiliaryWindow,
                                           rect_width = outerWidth auxiliaryWindow,
                                           rect_height = outerHeight auxiliaryWindow\<rparr>
                                 | None \<Rightarrow> None),
                       zoomLevel = (case getWindow E part of
                                      Some auxiliaryWindow \<Rightarrow> Some (getZoomLevel E auxiliaryWindow)
                                    | None \<Rightarrow> None)\<rparr>)
                   (filter (\<lambda>part. part \<noteq> mainPart s) (parts s)),
             mru = map (\<lambda>part. indexOf (map Some (parts s)) part) (mostRecentActiveParts s)\<rparr>
      in if length (auxiliary uiState) = 0
         then s\<lparr>workspaceMemento := (workspaceMemento s)(EDITOR_PARTS_UI_STATE_STORAGE_KEY := None)\<rparr>
         else s\<lparr>workspaceMemento := (workspaceMemento s)(EDITOR_PARTS_UI_STATE_STORAGE_KEY \<mapsto> uiState)\<rparr>)"


section \<open>Histories of the coordinator\<close>

text \<open>
  The coordinator runs each handler to completion; between two suspension points of
  \<open>restoreParts\<close> other handlers may run. A history is the sequence of handlers run since
  construction: an auxiliary part created and registered, a registered part focused, a
  part's registration disposed, and the most-recently-active update of \<open>restoreParts\<close>.
\<close>

datatype ('st, 'z) event =
    CreateAuxiliary part
  | Focus part
  | Dispose part
  | RestoreMRU "('st, 'z) IEditorPartsUIState"

fun step :: "('st, 'z) collaborators \<Rightarrow> ('st, 'z) EditorParts \<Rightarrow> ('st, 'z) event \<Rightarrow> ('st, 'z) EditorParts" where
  "step E s (CreateAuxiliary part) = createAuxiliaryEditorPart part s"
| "step E s (Focus part) = onDidFocus E part s"
| "step E s (Dispose part) = dispose_part part s"
| "step E s (RestoreMRU uiState) = restoreParts_updateMRU uiState s"

fun run :: "('st, 'z) collaborators \<Rightarrow> ('st, 'z) EditorParts \<Rightarrow> ('st, 'z) event list \<Rightarrow> ('st, 'z) EditorParts" where
  "run E s [] = s"
| "run E s (e # es) = run E (step E s e) es"

text \<open>
  What the program guarantees of each handler: a created part is a new object, only a
  registered part's focus listener is attached, and the main part's registration is
  disposed only with the coordinator itself.
\<close>

fun enabled :: "('st, 'z) EditorParts \<Rightarrow> ('st, 'z) event \<Rightarrow> bool" where
  "enabled s (CreateAuxiliary part) = (part \<notin> set (parts s) \<and> part \<noteq> mainPart s)"
| "enabled s (Focus part) = (part \<in> set (parts s))"
| "enabled s (Dispose part) = (part \<noteq> mainPart s)"
| "enabled s (RestoreMRU uiState) = True"

text \<open>The persisted positions are indices into the parts array.\<close>

fun positions_valid :: "('st, 'z) EditorParts \<Rightarrow> ('st, 'z) event \<Rightarrow> bool" where
  "positions_valid s (RestoreMRU uiState) =
     list_all (\<lambda>i. 0 \<le> i \<and> i < int (length (parts s))) (mru uiState)"
| "positions_valid s e = True"

text \<open>The persisted positions are pairwise different.\<close>

fun positions_distinct :: "('st, 'z) event \<Rightarrow> bool" where
  "positions_distinct (RestoreMRU uiState) = distinct (mru uiState)"
| "positions_distinct e = True"

fun history_ok :: "(('st, 'z) EditorParts \<Rightarrow> ('st, 'z) event \<Rightarrow> bool) \<Rightarrow> ('st, 'z) collaborators \<Rightarrow> ('st, 'z) EditorParts \<Rightarrow> ('st, 'z) event list \<Rightarrow> bool" where
  "history_ok G E s [] = True"
| "history_ok G E s (e # es) = (G s e \<and> history_ok G E (step E s e) es)"

definition auxiliaryParts :: "('st, 'z) EditorParts \<Rightarrow> part list" where
  "auxiliaryParts s = filter (\<lambda>part. part \<noteq> mainPart s) (parts s)"


text \<open>Histories in which the restoration step does not occur.\<close>

fun no_restore :: "('st, 'z) event \<Rightarrow> bool" where
  "no_restore (RestoreMRU uiState) = False"
| "no_restore e = True"

text \<open>The identifier that \<open>getPart\<close> looks up for a group or an identifier.\<close>

definition identifierOf :: "group_ref \<Rightarrow> GroupIdentifier" where
  "identifierOf g = (case g of Identifier n \<Rightarrow> n | GroupView v \<Rightarrow> group_id v)"

text \<open>The groups of all registered parts, part by part in registration order.\<close>

definition allGroups :: "('st, 'z) collaborators \<Rightarrow> GroupsOrder \<Rightarrow> ('st, 'z) EditorParts \<Rightarrow> IEditorGroupView list" where
  "allGroups E order s = concat (map (\<lambda>part. part_getGroups E part order) (parts s))"


text \<open>The \<open>source\<close> argument of \<open>findGroup\<close> with its default, the active group.\<close>

definition sourceOrActive :: "('st, 'z) collaborators \<Rightarrow> group_ref option \<Rightarrow> ('st, 'z) EditorParts \<Rightarrow> group_ref" where
  "sourceOrActive E source_arg s =
     (case source_arg of None \<Rightarrow> GroupView (activeGroup E s) | Some g \<Rightarrow> g)"


text \<open>
  The parts that the creation requests of \<open>restoreParts\<close> produced, in the order of the
  requests.
\<close>

definition createdParts :: "('st, 'z) IEditorPartsUIState \<Rightarrow> part option list \<Rightarrow> part list" where
  "createdParts uiState outcomes =
     List.map_filter (\<lambda>outcome. outcome) (take (length (auxiliary uiState)) outcomes)"


text \<open>
  The state of \<open>restoreParts\<close> once its creation requests have settled: each fulfilled
  request has registered its part, under the label computed when the requests were made.
\<close>

definition restore_created :: "part option list \<Rightarrow> ('st, 'z) IEditorPartsUIState \<Rightarrow> ('st, 'z) EditorParts \<Rightarrow> ('st, 'z) EditorParts" where
  "restore_created outcomes uiState s =
     fold (\<lambda>outcome st. case outcome of
                           Some part \<Rightarrow> registerCreated part (getGroupsLabel (length (parts s))) st
                         | None \<Rightarrow> st)
       (take (length (auxiliary uiState)) outcomes) s"


text \<open>
  The registry as the constructor and the handlers keep it: the main part is the first
  entry of the parts array and no part occurs twice.
\<close>

definition registry_ok :: "('st, 'z) EditorParts \<Rightarrow> bool" where
  "registry_ok s = (parts s \<noteq> [] \<and> hd (parts s) = mainPart s \<and> distinct (parts s))"

text \<open>Every part other than the main part carries the label of its position in the parts array.\<close>

definition labels_ok :: "('st, 'z) EditorParts \<Rightarrow> bool" where
  "labels_ok s =
     (\<forall>k<length (parts s). parts s ! k \<noteq> mainPart s
        \<longrightarrow> groupsLabel s (parts s ! k) = Some (getGroupsLabel k))"

text \<open>
  The most-recently-active list holds registered parts only, none twice, the main part
  among them.
\<close>

definition mru_ok :: "('st, 'z) EditorParts \<Rightarrow> bool" where
  "mru_ok s =
     (Some (mainPart s) \<in> set (mostRecentActiveParts s)
      \<and> distinct (mostRecentActiveParts s)
      \<and> set (mostRecentActiveParts s) \<subseteq> Some ` set (parts s))"


text \<open>The callback that \<open>unregisterPart\<close> runs on each remaining part.\<close>

abbreviation relabel :: "part \<Rightarrow> nat \<Rightarrow> ('st, 'z) EditorParts \<Rightarrow> ('st, 'z) EditorParts" where
  "relabel \<equiv> (\<lambda>part index st. if part = mainPart st then st
                               else notifyGroupsLabelChange part (getGroupsLabel index) st)"


text \<open>
  The handlers that \<open>restoreParts\<close> runs for a stored snapshot: one creation per fulfilled
  request, then the update of the most-recently-active list.
\<close>

definition restore_history :: "('st, 'z) IEditorPartsUIState \<Rightarrow> part option list \<Rightarrow> ('st, 'z) event list" where
  "restore_history uiState outcomes =
     map CreateAuxiliary (createdParts uiState outcomes) @ [RestoreMRU uiState]"

text \<open>
  The conditions on a handler under which the most-recently-active list keeps the main
  part: those the program guarantees, and stored positions that are pairwise different
  indices into the parts array.
\<close>

definition restorable :: "('st, 'z) EditorParts \<Rightarrow> ('st, 'z) event \<Rightarrow> bool" where
  "restorable s e = (enabled s e \<and> positions_valid s e \<and> positions_distinct e)"


section \<open>A concrete installation\<close>

text \<open>
  Parts \<open>0\<close> (the main part), \<open>1\<close>, \<open>2\<close> and \<open>3\<close>; part \<open>0\<close> owns the groups \<open>1, 2\<close>,
  part \<open>1\<close> the groups \<open>11, 12, 13\<close>, part \<open>2\<close> the group \<open>21\<close>. Each part searches its
  own groups in their order.
\<close>

definition example_view :: "nat \<Rightarrow> IEditorGroupView" where
  "example_view n = \<lparr>view_ref = n, group_id = int n\<rparr>"

definition example_groups :: "part \<Rightarrow> IEditorGroupView list" where
  "example_groups p =
     (if p = 0 then [example_view 1, example_view 2]
      else if p = 1 then [example_view 11, example_view 12, example_view 13]
      else if p = 2 then [example_view 21]
      else [])"

definition example_findGroup :: "part \<Rightarrow> IFindGroupScope \<Rightarrow> group_ref \<Rightarrow> bool \<Rightarrow> error + IEditorGroupView option" where
  "example_findGroup p scope source wrap =
     (let gs = example_groups p in
      case find (\<lambda>g. group_id g = identifierOf source) gs of
        None \<Rightarrow> Inl InvalidEditorGroup
      | Some g \<Rightarrow>
          (let i = indexOf gs g in
           case location scope of
             None \<Rightarrow> Inr None
           | Some FIRST \<Rightarrow> Inr (at_index gs 0)
           | Some LAST \<Rightarrow> Inr (at_index gs (int (length gs) - 1))
           | Some NEXT \<Rightarrow>
               Inr (if at_index gs (i + 1) = None \<and> wrap then at_index gs 0
                    else at_index gs (i + 1))
           | Some PREVIOUS \<Rightarrow>
               Inr (if at_index gs (i - 1) = None \<and> wrap then at_index gs (int (length gs) - 1)
                    else at_index gs (i - 1))))"

definition example_collaborators :: "(nat, int) collaborators" where
  "example_collaborators =
     \<lparr>part_hasGroup = (\<lambda>p i. i \<in> set (map group_id (example_groups p))),
      part_getGroup = (\<lambda>p i. find (\<lambda>g. group_id g = i) (example_groups p)),
      part_getGroups = (\<lambda>p order. example_groups p),
      part_findGroup = example_findGroup,
      part_activeGroup = (\<lambda>p. example_view (10 * p + 1)),
      part_document = (\<lambda>p. Some p),
      part_createState = (\<lambda>p. p),
      part_willRestoreState = (\<lambda>p. True),
      getWindow = (\<lambda>p. if p = 3 then None
                         else Some \<lparr>screenX = 100 * int p, screenY = 50,
                                    outerWidth = 800, outerHeight = 600\<rparr>),
      getZoomLevel = (\<lambda>w. 0),
      getActiveDocument = 0\<rparr>"

definition example_memento :: "string \<rightharpoonup> (nat, int) IEditorPartsUIState" where
  "example_memento = Map.empty"

text \<open>The main part and three auxiliary parts, created one after the other.\<close>

definition example_state :: "(nat, int) EditorParts" where
  "example_state =
     run example_collaborators (constructor 0 example_memento)
       [CreateAuxiliary 1, CreateAuxiliary 2, CreateAuxiliary 3]"


text \<open>A stored snapshot with two auxiliary entries, and a coordinator constructed over it.\<close>

definition example_saved :: "(nat, int) IEditorPartsUIState" where
  "example_saved =
     \<lparr>auxiliary = [\<lparr>state = 1, bounds = None, zoomLevel = None\<rparr>,
                   \<lparr>state = 2, bounds = None, zoomLevel = Some 0\<rparr>],
      mru = [2, 0, 1]\<rparr>"

definition example_restoring :: "(nat, int) EditorParts" where
  "example_restoring =
     constructor 0 (Map.empty(EDITOR_PARTS_UI_STATE_STORAGE_KEY \<mapsto> example_saved))"


text \<open>
  A stored snapshot with one auxiliary entry whose \<open>mru\<close> names position 1 twice, and a
  coordinator constructed over it.
\<close>

definition example_saved_repeated :: "(nat, int) IEditorPartsUIState" where
  "example_saved_repeated =
     \<lparr>auxiliary = [\<lparr>state = 1, bounds = None, zoomLevel = None\<rparr>], mru = [1, 1]\<rparr>"

definition example_restoring_repeated :: "(nat, int) EditorParts" where
  "example_restoring_repeated =
     constructor 0 (Map.empty(EDITOR_PARTS_UI_STATE_STORAGE_KEY \<mapsto> example_saved_repeated))"


text \<open>
  A snapshot as \<open>saveState\<close> writes it for the main part and four auxiliary parts of
  which the fourth, the third and the main part were focused last, and a coordinator
  constructed over it.
\<close>

definition example_saved_four :: "(nat, int) IEditorPartsUIState" where
  "example_saved_four =
     \<lparr>auxiliary = [\<lparr>state = 1, bounds = None, zoomLevel = None\<rparr>,
                   \<lparr>state = 2, bounds = None, zoomLevel = None\<rparr>,
                   \<lparr>state = 3, bounds = None, zoomLevel = None\<rparr>,
                   \<lparr>state = 4, bounds = None, zoomLevel = None\<rparr>],
      mru = [4, 3, 0]\<rparr>"

definition example_restoring_four :: "(nat, int) EditorParts" where
  "example_restoring_four =
     constructor 0 (Map.empty(EDITOR_PARTS_UI_STATE_STORAGE_KEY \<mapsto> example_saved_four))"


section \<open>Facts about the array operations\<close>

lemma indexOf_lower: "- 1 \<le> indexOf xs x"
  by (induction xs) (auto simp: Let_def)

lemma indexOf_absent_iff: "indexOf xs x = - 1 \<longleftrightarrow> x \<notin> set xs"
proof (induction xs)
  case Nil
  then show ?case by simp
next
  case (Cons y ys)
  have "- 1 \<le> indexOf ys x" by (rule indexOf_lower)
  with Cons show ?case by (auto simp: Let_def)
qed

lemma indexOf_present:
  "x \<in> set xs \<Longrightarrow> 0 \<le> indexOf xs x \<and> indexOf xs x < int (length xs) \<and> xs ! nat (indexOf xs x) = x"
proof (induction xs)
  case Nil
  then show ?case by simp
next
  case (Cons y ys)
  show ?case
  proof (cases "y = x")
    case True
    then show ?thesis by simp
  next
    case False
    with Cons.prems have mem: "x \<in> set ys" by simp
    then have ne: "indexOf ys x \<noteq> - 1" by (simp add: indexOf_absent_iff)
    from Cons.IH [OF mem] have ih: "0 \<le> indexOf ys x" "indexOf ys x < int (length ys)"
      "ys ! nat (indexOf ys x) = x" by simp_all
    from ih(1) have "nat (indexOf ys x + 1) = Suc (nat (indexOf ys x))" by simp
    with False ne ih show ?thesis by (simp add: Let_def)
  qed
qed

lemma splice1_indexOf: "x \<in> set xs \<Longrightarrow> splice1 xs (indexOf xs x) = remove1 x xs"
proof (induction xs)
  case Nil
  then show ?case by simp
next
  case (Cons y ys)
  show ?case
  proof (cases "y = x")
    case True
    then show ?thesis by (simp add: splice1_def)
  next
    case False
    with Cons.prems have mem: "x \<in> set ys" by simp
    then have ne: "indexOf ys x \<noteq> - 1" by (simp add: indexOf_absent_iff)
    from indexOf_present [OF mem] have b: "0 \<le> indexOf ys x" "indexOf ys x < int (length ys)"
      by simp_all
    from b have n: "nat (indexOf ys x + 1) = Suc (nat (indexOf ys x))" by simp
    from Cons.IH [OF mem] b have ih: "take (nat (indexOf ys x)) ys @ drop (Suc (nat (indexOf ys x))) ys = remove1 x ys"
      by (simp add: splice1_def Let_def min_def)
    from False ne b n ih show ?thesis
      by (simp add: splice1_def Let_def min_def)
  qed
qed


section \<open>Facts about the most-recently-active list\<close>

lemma mru_doUpdateMostRecentActive:
  "mostRecentActiveParts (doUpdateMostRecentActive p b s) =
     (if b then [Some p] else []) @ remove1 (Some p) (mostRecentActiveParts s)"
proof (cases "Some p \<in> set (mostRecentActiveParts s)")
  case True
  then have "indexOf (mostRecentActiveParts s) (Some p) \<noteq> - 1" by (simp add: indexOf_absent_iff)
  with True show ?thesis
    by (simp add: doUpdateMostRecentActive_def Let_def unshift_def splice1_indexOf)
next
  case False
  then have "indexOf (mostRecentActiveParts s) (Some p) = - 1" by (simp add: indexOf_absent_iff)
  with False show ?thesis
    by (simp add: doUpdateMostRecentActive_def Let_def unshift_def remove1_idem)
qed

lemma doUpdateMostRecentActive_fields [simp]:
  "parts (doUpdateMostRecentActive p b s) = parts s"
  "mainPart (doUpdateMostRecentActive p b s) = mainPart s"
  "groupsLabel (doUpdateMostRecentActive p b s) = groupsLabel s"
  "firedActiveGroupChange (doUpdateMostRecentActive p b s) = firedActiveGroupChange s"
  "workspaceMemento (doUpdateMostRecentActive p b s) = workspaceMemento s"
  by (simp_all add: doUpdateMostRecentActive_def Let_def)

lemma relabel_frame:
  "parts (forEach_from i xs
          (\<lambda>part index st. if part = mainPart st then st
                            else notifyGroupsLabelChange part (getGroupsLabel index) st) s) = parts s
   \<and> mainPart (forEach_from i xs
          (\<lambda>part index st. if part = mainPart st then st
                            else notifyGroupsLabelChange part (getGroupsLabel index) st) s) = mainPart s
   \<and> mostRecentActiveParts (forEach_from i xs
          (\<lambda>part index st. if part = mainPart st then st
                            else notifyGroupsLabelChange part (getGroupsLabel index) st) s) = mostRecentActiveParts s
   \<and> firedActiveGroupChange (forEach_from i xs
          (\<lambda>part index st. if part = mainPart st then st
                            else notifyGroupsLabelChange part (getGroupsLabel index) st) s) = firedActiveGroupChange s
   \<and> workspaceMemento (forEach_from i xs
          (\<lambda>part index st. if part = mainPart st then st
                            else notifyGroupsLabelChange part (getGroupsLabel index) st) s) = workspaceMemento s"
  by (induction xs arbitrary: i s) (simp_all add: notifyGroupsLabelChange_def)

lemma unregisterPart_fields [simp]:
  "parts (unregisterPart p s) = removeAll p (parts s)"
  "mainPart (unregisterPart p s) = mainPart s"
  "mostRecentActiveParts (unregisterPart p s) = mostRecentActiveParts s"
  "firedActiveGroupChange (unregisterPart p s) = firedActiveGroupChange s"
  "workspaceMemento (unregisterPart p s) = workspaceMemento s"
  by (simp_all add: unregisterPart_def super_unregisterPart_def forEach_def relabel_frame)

lemma mru_onDidFocus:
  "mostRecentActiveParts (onDidFocus E p s) = Some p # remove1 (Some p) (mostRecentActiveParts s)"
  by (simp add: onDidFocus_def Let_def mru_doUpdateMostRecentActive)

lemma mru_dispose_part:
  "mostRecentActiveParts (dispose_part p s) = remove1 (Some p) (mostRecentActiveParts s)"
  by (simp add: dispose_part_def mru_doUpdateMostRecentActive)

lemma mru_createAuxiliaryEditorPart:
  "mostRecentActiveParts (createAuxiliaryEditorPart p s) = mostRecentActiveParts s"
  by (simp add: createAuxiliaryEditorPart_def registerCreated_def registerPart_def super_registerPart_def Let_def)

lemma distinct_step:
  "no_restore e \<Longrightarrow> distinct (mostRecentActiveParts s) \<Longrightarrow> distinct (mostRecentActiveParts (step E s e))"
  by (cases e) (simp_all add: mru_onDidFocus mru_dispose_part mru_createAuxiliaryEditorPart)

lemma distinct_run:
  "list_all no_restore h \<Longrightarrow> distinct (mostRecentActiveParts s) \<Longrightarrow> distinct (mostRecentActiveParts (run E s h))"
  by (induction h arbitrary: s) (simp_all add: distinct_step)


section \<open>Resolution of a group to its part\<close>

text \<open>
  Claim C1. For every input of \<open>getPart\<close> (a group, a group identifier or an element):
  with exactly one part registered the result is the main part, whether or not the input
  is a known group. With more than one part registered, a group or identifier resolves to
  the first registered part that has the group (the part at position \<open>k\<close> when no part
  before position \<open>k\<close> has it), and to the main part when no registered part has it.
\<close>

theorem getPart_resolution:
  "(length (parts s) = 1 \<longrightarrow> getPart E input s = mainPart s)
   \<and> (1 < length (parts s) \<and> k < length (parts s)
        \<and> part_hasGroup E (parts s ! k) (identifierOf g)
        \<and> (\<forall>j<k. \<not> part_hasGroup E (parts s ! j) (identifierOf g))
        \<longrightarrow> getPart E (OfGroup g) s = parts s ! k)
   \<and> (1 < length (parts s) \<and> (\<forall>p\<in>set (parts s). \<not> part_hasGroup E p (identifierOf g))
        \<longrightarrow> getPart E (OfGroup g) s = mainPart s)"
proof (intro conjI impI)
  assume "length (parts s) = 1"
  then show "getPart E input s = mainPart s" by (simp add: getPart_def)
next
  assume a: "1 < length (parts s) \<and> k < length (parts s)
        \<and> part_hasGroup E (parts s ! k) (identifierOf g)
        \<and> (\<forall>j<k. \<not> part_hasGroup E (parts s ! j) (identifierOf g))"
  then have "find (\<lambda>part. part_hasGroup E part (identifierOf g)) (parts s) = Some (parts s ! k)"
    unfolding find_Some_iff by blast
  with a show "getPart E (OfGroup g) s = parts s ! k"
    by (simp add: getPart_def identifierOf_def)
next
  assume a: "1 < length (parts s) \<and> (\<forall>p\<in>set (parts s). \<not> part_hasGroup E p (identifierOf g))"
  then have "find (\<lambda>part. part_hasGroup E part (identifierOf g)) (parts s) = None"
    unfolding find_None_iff by blast
  with a show "getPart E (OfGroup g) s = mainPart s"
    by (simp add: getPart_def identifierOf_def)
qed

theorem getPart_resolution_witness:
  "length (parts (constructor 0 example_memento :: (nat, int) EditorParts)) = 1
   \<and> getPart example_collaborators (OfGroup (Identifier 99)) (constructor 0 example_memento) = 0
   \<and> 1 < length (parts example_state) \<and> 1 < length (parts example_state)
   \<and> part_hasGroup example_collaborators (parts example_state ! 1) (identifierOf (Identifier 12))
   \<and> \<not> part_hasGroup example_collaborators (parts example_state ! 0) (identifierOf (Identifier 12))
   \<and> getPart example_collaborators (OfGroup (Identifier 12)) example_state = parts example_state ! 1
   \<and> list_all (\<lambda>p. \<not> part_hasGroup example_collaborators p (identifierOf (Identifier 99)))
        (parts example_state)
   \<and> getPart example_collaborators (OfGroup (Identifier 99)) example_state = mainPart example_state"
proof -
  have one: "length (parts (constructor 0 example_memento :: (nat, int) EditorParts)) = 1"
    by code_simp
  have many: "1 < length (parts example_state)" by code_simp
  have has: "part_hasGroup example_collaborators (parts example_state ! 1) (identifierOf (Identifier 12))"
    by code_simp
  have first0: "\<not> part_hasGroup example_collaborators (parts example_state ! 0) (identifierOf (Identifier 12))"
    by code_simp
  then have first: "\<forall>j<1. \<not> part_hasGroup example_collaborators (parts example_state ! j) (identifierOf (Identifier 12))"
    by simp
  have none_all: "list_all (\<lambda>p. \<not> part_hasGroup example_collaborators p (identifierOf (Identifier 99)))
        (parts example_state)"
    by code_simp
  then have none: "\<forall>p\<in>set (parts example_state). \<not> part_hasGroup example_collaborators p (identifierOf (Identifier 99))"
    by (simp add: list_all_iff)
  have m: "mainPart (constructor 0 example_memento :: (nat, int) EditorParts) = 0" by code_simp
  from getPart_resolution [of "constructor 0 example_memento" example_collaborators "OfGroup (Identifier 99)" 0 "Identifier 99"]
    one m
  have r1: "getPart example_collaborators (OfGroup (Identifier 99)) (constructor 0 example_memento) = 0"
    by simp
  from getPart_resolution [of example_state example_collaborators "OfGroup (Identifier 12)" 1 "Identifier 12"]
    many has first
  have r2: "getPart example_collaborators (OfGroup (Identifier 12)) example_state = parts example_state ! 1"
    by blast
  from getPart_resolution [of example_state example_collaborators "OfGroup (Identifier 99)" 0 "Identifier 99"]
    many none
  have r3: "getPart example_collaborators (OfGroup (Identifier 99)) example_state = mainPart example_state"
    by blast
  from one many has first0 none_all r1 r2 r3 show ?thesis by blast
qed




section \<open>The strict resolution of a group\<close>

lemma getGroup_loop_None_iff:
  "getGroup_loop E n ps = None \<longleftrightarrow> (\<forall>p\<in>set ps. part_getGroup E p n = None)"
  by (induction ps) (auto split: option.splits)

lemma getGroup_loop_Some:
  "getGroup_loop E n ps = Some v \<Longrightarrow> \<exists>p\<in>set ps. part_getGroup E p n = Some v"
  by (induction ps) (auto split: option.splits)

lemma single_part_is_main:
  "mainPart s \<in> set (parts s) \<Longrightarrow> \<not> 1 < length (parts s) \<Longrightarrow> parts s = [mainPart s]"
  by (cases "parts s") auto

lemma getGroup_None_iff:
  assumes "mainPart s \<in> set (parts s)"
  shows "getGroup E n s = None \<longleftrightarrow> (\<forall>p\<in>set (parts s). part_getGroup E p n = None)"
proof (cases "1 < length (parts s)")
  case True
  then have "getGroup E n s = None
     \<longleftrightarrow> getGroup_loop E n (parts s) = None \<and> part_getGroup E (mainPart s) n = None"
    by (simp add: getGroup_def split: option.splits)
  with assms show ?thesis
    by (auto simp: getGroup_loop_None_iff)
next
  case False
  with assms have "parts s = [mainPart s]" by (rule single_part_is_main)
  with False show ?thesis by (simp add: getGroup_def)
qed

lemma getGroup_Some:
  assumes "mainPart s \<in> set (parts s)" and "getGroup E n s = Some v"
  shows "\<exists>p\<in>set (parts s). part_getGroup E p n = Some v"
proof (cases "1 < length (parts s) \<and> getGroup_loop E n (parts s) \<noteq> None")
  case True
  with assms(2) have "getGroup_loop E n (parts s) = Some v"
    by (auto simp: getGroup_def)
  then show ?thesis by (rule getGroup_loop_Some)
next
  case False
  with assms(2) have "part_getGroup E (mainPart s) n = Some v"
    by (auto simp: getGroup_def split: if_splits option.splits)
  with assms(1) show ?thesis by blast
qed

text \<open>
  Claim C9. With the main part registered, \<open>assertGroupView\<close> raises the invalid-group
  error exactly when its argument is an identifier for which no registered part has a
  group, and it raises no other error. Given a group view it returns that view; given an
  identifier that some registered part has a group for, it returns a group that a
  registered part holds under that identifier. The lookup is made once: the result is a
  function of the single call of \<open>getGroup\<close>, there is no second attempt.
\<close>

theorem assertGroupView_strict:
  assumes "mainPart s \<in> set (parts s)"
  shows "(assertGroupView E g s = Inl InvalidEditorGroup
            \<longleftrightarrow> (\<exists>n. g = Identifier n \<and> (\<forall>p\<in>set (parts s). part_getGroup E p n = None)))
         \<and> (\<forall>e. assertGroupView E g s = Inl e \<longrightarrow> e = InvalidEditorGroup)
         \<and> assertGroupView E (GroupView v) s = Inr v
         \<and> ((\<exists>p\<in>set (parts s). part_getGroup E p n \<noteq> None)
              \<longrightarrow> (\<exists>w. assertGroupView E (Identifier n) s = Inr w
                        \<and> (\<exists>p\<in>set (parts s). part_getGroup E p n = Some w)))"
proof (intro conjI)
  show "assertGroupView E g s = Inl InvalidEditorGroup
            \<longleftrightarrow> (\<exists>n. g = Identifier n \<and> (\<forall>p\<in>set (parts s). part_getGroup E p n = None))"
  proof (cases g)
    case (GroupView x)
    then show ?thesis by (simp add: assertGroupView_def)
  next
    case (Identifier m)
    have "assertGroupView E (Identifier m) s = Inl InvalidEditorGroup \<longleftrightarrow> getGroup E m s = None"
      by (simp add: assertGroupView_def split: option.splits)
    with Identifier getGroup_None_iff [OF assms, of E m] show ?thesis
      by simp
  qed
  show "\<forall>e. assertGroupView E g s = Inl e \<longrightarrow> e = InvalidEditorGroup"
    by (auto simp: assertGroupView_def Let_def split: option.splits)
  show "assertGroupView E (GroupView v) s = Inr v"
    by (simp add: assertGroupView_def)
  show "(\<exists>p\<in>set (parts s). part_getGroup E p n \<noteq> None)
              \<longrightarrow> (\<exists>w. assertGroupView E (Identifier n) s = Inr w
                        \<and> (\<exists>p\<in>set (parts s). part_getGroup E p n = Some w))"
  proof
    assume "\<exists>p\<in>set (parts s). part_getGroup E p n \<noteq> None"
    with getGroup_None_iff [OF assms, of E n] obtain w where w: "getGroup E n s = Some w"
      by auto
    from getGroup_Some [OF assms w] w
    show "\<exists>w. assertGroupView E (Identifier n) s = Inr w
                        \<and> (\<exists>p\<in>set (parts s). part_getGroup E p n = Some w)"
      by (simp add: assertGroupView_def)
  qed
qed


theorem assertGroupView_strict_witness:
  "mainPart example_state \<in> set (parts example_state)
   \<and> assertGroupView example_collaborators (Identifier 99) example_state = Inl InvalidEditorGroup
   \<and> list_all (\<lambda>p. part_getGroup example_collaborators p 99 = None) (parts example_state)
   \<and> assertGroupView example_collaborators (GroupView (example_view 12)) example_state
        = Inr (example_view 12)
   \<and> (\<exists>p\<in>set (parts example_state). part_getGroup example_collaborators p 12 \<noteq> None)
   \<and> (\<exists>w. assertGroupView example_collaborators (Identifier 12) example_state = Inr w
          \<and> (\<exists>p\<in>set (parts example_state). part_getGroup example_collaborators p 12 = Some w))"
proof -
  have m: "mainPart example_state \<in> set (parts example_state)" by code_simp
  have none_all: "list_all (\<lambda>p. part_getGroup example_collaborators p 99 = None) (parts example_state)"
    by code_simp
  then have none: "\<forall>p\<in>set (parts example_state). part_getGroup example_collaborators p 99 = None"
    by (simp add: list_all_iff)
  have some: "\<exists>p\<in>set (parts example_state). part_getGroup example_collaborators p 12 \<noteq> None"
    by code_simp
  from assertGroupView_strict [OF m, of example_collaborators "Identifier 99" "example_view 12" 12] none
  have r1: "assertGroupView example_collaborators (Identifier 99) example_state = Inl InvalidEditorGroup"
    by simp
  from assertGroupView_strict [OF m, of example_collaborators "Identifier 12" "example_view 12" 12] some
  have r2: "assertGroupView example_collaborators (GroupView (example_view 12)) example_state
        = Inr (example_view 12)"
    and r3: "\<exists>w. assertGroupView example_collaborators (Identifier 12) example_state = Inr w
          \<and> (\<exists>p\<in>set (parts example_state). part_getGroup example_collaborators p 12 = Some w)"
    by blast+
  from m none_all some r1 r2 r3 show ?thesis by blast
qed



section \<open>Searching for a group across parts\<close>

lemma flat_groups_registered:
  "flat_groups E order (map Some ps) = Inr (concat (map (\<lambda>part. part_getGroups E part order) ps))"
  by (induction ps) simp_all

lemma getGroups_grid:
  "1 < length (parts s) \<Longrightarrow> getGroups E GRID_APPEARANCE s = Inr (allGroups E GRID_APPEARANCE s)"
  by (simp add: getGroups_def allGroups_def flat_groups_registered)

lemma at_index_first: "at_index gs 0 = (case gs of [] \<Rightarrow> None | g # _ \<Rightarrow> Some g)"
  by (cases gs) (simp_all add: at_index_def)

lemma at_index_last:
  "at_index gs (int (length gs) - 1) = (if gs = [] then None else Some (last gs))"
proof (cases "gs = []")
  case True
  then show ?thesis by (simp add: at_index_def)
next
  case False
  then have "nat (int (length gs) - 1) = length gs - 1" by simp
  with False show ?thesis by (simp add: at_index_def last_conv_nth)
qed

lemma indexOf_first:
  "i < length xs \<Longrightarrow> xs ! i = x \<Longrightarrow> (\<forall>j<i. xs ! j \<noteq> x) \<Longrightarrow> indexOf xs x = int i"
proof (induction xs arbitrary: i)
  case Nil
  then show ?case by simp
next
  case (Cons y ys)
  show ?case
  proof (cases i)
    case 0
    with Cons.prems show ?thesis by simp
  next
    case (Suc k)
    from Cons.prems(3) Suc have ne: "y \<noteq> x" by auto
    from Cons.prems Suc have "k < length ys" "ys ! k = x" by simp_all
    moreover from Cons.prems(3) Suc have "\<forall>j<k. ys ! j \<noteq> x" by auto
    ultimately have "indexOf ys x = int k" by (rule Cons.IH)
    with ne Suc show ?thesis by (simp add: Let_def)
  qed
qed

text \<open>
  Claim C7. With more than one part registered and \<open>scope.location\<close> \<open>FIRST\<close> (or
  \<open>LAST\<close>), \<open>findGroup\<close> returns the first (the last) group of the grid-appearance list of
  all parts' groups, nothing when that list is empty, whatever \<open>source\<close> and \<open>wrap\<close> are.
  With exactly one part registered, that part being the main part, the call is the part's
  own search with the same arguments.
\<close>

theorem findGroup_first_last:
  "(1 < length (parts s) \<and> location scope = Some FIRST
      \<longrightarrow> findGroup E scope source_arg wrap s
            = Inr (case allGroups E GRID_APPEARANCE s of [] \<Rightarrow> None | g # rest \<Rightarrow> Some g))
   \<and> (1 < length (parts s) \<and> location scope = Some LAST
      \<longrightarrow> findGroup E scope source_arg wrap s
            = Inr (if allGroups E GRID_APPEARANCE s = [] then None
                   else Some (last (allGroups E GRID_APPEARANCE s))))
   \<and> (parts s = [p] \<and> mainPart s \<in> set (parts s)
      \<longrightarrow> findGroup E scope source_arg wrap s
            = part_findGroup E p scope (sourceOrActive E source_arg s) wrap)"
proof (intro conjI impI)
  assume a: "1 < length (parts s) \<and> location scope = Some FIRST"
  then show "findGroup E scope source_arg wrap s
            = Inr (case allGroups E GRID_APPEARANCE s of [] \<Rightarrow> None | g # rest \<Rightarrow> Some g)"
    by (simp add: findGroup_def Let_def getGroups_grid at_index_first)
next
  assume a: "1 < length (parts s) \<and> location scope = Some LAST"
  then show "findGroup E scope source_arg wrap s
            = Inr (if allGroups E GRID_APPEARANCE s = [] then None
                   else Some (last (allGroups E GRID_APPEARANCE s)))"
    by (simp add: findGroup_def Let_def getGroups_grid at_index_last)
next
  assume a: "parts s = [p] \<and> mainPart s \<in> set (parts s)"
  then have "mainPart s = p" by auto
  with a show "findGroup E scope source_arg wrap s
            = part_findGroup E p scope (sourceOrActive E source_arg s) wrap"
    by (simp add: findGroup_def Let_def getPart_def sourceOrActive_def)
qed

theorem findGroup_first_last_witness:
  "1 < length (parts example_state)
   \<and> location \<lparr>direction = None, location = Some FIRST\<rparr> = Some FIRST
   \<and> findGroup example_collaborators \<lparr>direction = None, location = Some FIRST\<rparr>
        (Some (Identifier 12)) False example_state
        = Inr (case allGroups example_collaborators GRID_APPEARANCE example_state of
                 [] \<Rightarrow> None | g # rest \<Rightarrow> Some g)
   \<and> location \<lparr>direction = None, location = Some LAST\<rparr> = Some LAST
   \<and> findGroup example_collaborators \<lparr>direction = None, location = Some LAST\<rparr>
        (Some (Identifier 12)) False example_state
        = Inr (if allGroups example_collaborators GRID_APPEARANCE example_state = [] then None
               else Some (last (allGroups example_collaborators GRID_APPEARANCE example_state)))
   \<and> parts (constructor 0 example_memento :: (nat, int) EditorParts) = [0]
   \<and> mainPart (constructor 0 example_memento :: (nat, int) EditorParts)
        \<in> set (parts (constructor 0 example_memento :: (nat, int) EditorParts))
   \<and> findGroup example_collaborators \<lparr>direction = None, location = Some NEXT\<rparr>
        (Some (Identifier 2)) True (constructor 0 example_memento)
        = part_findGroup example_collaborators 0 \<lparr>direction = None, location = Some NEXT\<rparr>
            (sourceOrActive example_collaborators (Some (Identifier 2))
               (constructor 0 example_memento)) True"
proof -
  have many: "1 < length (parts example_state)" by code_simp
  have one: "parts (constructor 0 example_memento :: (nat, int) EditorParts) = [0]"
    by code_simp
  have m: "mainPart (constructor 0 example_memento :: (nat, int) EditorParts)
        \<in> set (parts (constructor 0 example_memento :: (nat, int) EditorParts))"
    by code_simp
  from findGroup_first_last [of example_state "\<lparr>direction = None, location = Some FIRST\<rparr>"
      example_collaborators "Some (Identifier 12)" False 0] many
  have r1: "findGroup example_collaborators \<lparr>direction = None, location = Some FIRST\<rparr>
        (Some (Identifier 12)) False example_state
        = Inr (case allGroups example_collaborators GRID_APPEARANCE example_state of
                 [] \<Rightarrow> None | g # rest \<Rightarrow> Some g)"
    by simp
  from findGroup_first_last [of example_state "\<lparr>direction = None, location = Some LAST\<rparr>"
      example_collaborators "Some (Identifier 12)" False 0] many
  have r2: "findGroup example_collaborators \<lparr>direction = None, location = Some LAST\<rparr>
        (Some (Identifier 12)) False example_state
        = Inr (if allGroups example_collaborators GRID_APPEARANCE example_state = [] then None
               else Some (last (allGroups example_collaborators GRID_APPEARANCE example_state)))"
    by simp
  from findGroup_first_last [of "constructor 0 example_memento"
      "\<lparr>direction = None, location = Some NEXT\<rparr>"
      example_collaborators "Some (Identifier 2)" True 0] one m
  have r3: "findGroup example_collaborators \<lparr>direction = None, location = Some NEXT\<rparr>
        (Some (Identifier 2)) True (constructor 0 example_memento)
        = part_findGroup example_collaborators 0 \<lparr>direction = None, location = Some NEXT\<rparr>
            (sourceOrActive example_collaborators (Some (Identifier 2))
               (constructor 0 example_memento)) True"
    by blast
  from many one m r1 r2 r3 show ?thesis by simp
qed



lemma sourceOrActive_Some: "sourceOrActive E (Some g) s = g"
  by (simp add: sourceOrActive_def)

text \<open>
  Claim C6. With more than one part registered and \<open>scope.location\<close> \<open>NEXT\<close> or
  \<open>PREVIOUS\<close>, \<open>findGroup\<close> first searches the part that \<open>getPart\<close> gives for \<open>source\<close>
  (the active group when the argument is omitted), without wrapping (the \<open>wrap\<close> argument
  is not passed on). A group found there is the
  result. When that search finds nothing and \<open>source\<close> resolves to a group at position \<open>i\<close>
  of the grid-appearance list of all parts' groups, the result is the group at \<open>i + 1\<close>
  (\<open>NEXT\<close>) or \<open>i - 1\<close> (\<open>PREVIOUS\<close>); past the end of that list the result is its first
  group (\<open>NEXT\<close>) or its last (\<open>PREVIOUS\<close>) when \<open>wrap\<close> is set, and nothing otherwise.
\<close>

theorem findGroup_next_previous:
  assumes "1 < length (parts s)"
    and "location scope = Some NEXT \<or> location scope = Some PREVIOUS"
  shows "(part_findGroup E (getPart E (OfGroup (sourceOrActive E source_arg s)) s) scope
            (sourceOrActive E source_arg s) False = Inr (Some g)
            \<longrightarrow> findGroup E scope source_arg wrap s = Inr (Some g))
       \<and> (part_findGroup E (getPart E (OfGroup (sourceOrActive E source_arg s)) s) scope
            (sourceOrActive E source_arg s) False = Inr None
          \<and> assertGroupView E (sourceOrActive E source_arg s) s = Inr sourceGroup
          \<and> i < length (allGroups E GRID_APPEARANCE s)
          \<and> allGroups E GRID_APPEARANCE s ! i = sourceGroup
          \<and> (\<forall>j<i. allGroups E GRID_APPEARANCE s ! j \<noteq> sourceGroup)
            \<longrightarrow> (location scope = Some NEXT
                   \<longrightarrow> findGroup E scope source_arg wrap s
                        = Inr (if i + 1 < length (allGroups E GRID_APPEARANCE s)
                               then Some (allGroups E GRID_APPEARANCE s ! (i + 1))
                               else if wrap then Some (allGroups E GRID_APPEARANCE s ! 0)
                               else None))
                \<and> (location scope = Some PREVIOUS
                   \<longrightarrow> findGroup E scope source_arg wrap s
                        = Inr (if 0 < i
                               then Some (allGroups E GRID_APPEARANCE s ! (i - 1))
                               else if wrap then Some (last (allGroups E GRID_APPEARANCE s))
                               else None)))"
proof (intro conjI impI)
  assume "part_findGroup E (getPart E (OfGroup (sourceOrActive E source_arg s)) s) scope
            (sourceOrActive E source_arg s) False = Inr (Some g)"
  with assms show "findGroup E scope source_arg wrap s = Inr (Some g)"
    by (auto simp: findGroup_def Let_def getGroups_grid sourceOrActive_def)
next
  assume a: "part_findGroup E (getPart E (OfGroup (sourceOrActive E source_arg s)) s) scope
            (sourceOrActive E source_arg s) False = Inr None
          \<and> assertGroupView E (sourceOrActive E source_arg s) s = Inr sourceGroup
          \<and> i < length (allGroups E GRID_APPEARANCE s)
          \<and> allGroups E GRID_APPEARANCE s ! i = sourceGroup
          \<and> (\<forall>j<i. allGroups E GRID_APPEARANCE s ! j \<noteq> sourceGroup)"
  assume n: "location scope = Some NEXT"
  from a have ix: "indexOf (allGroups E GRID_APPEARANCE s) sourceGroup = int i"
    by (simp add: indexOf_first)
  have nx: "at_index (allGroups E GRID_APPEARANCE s) (int i + 1)
              = (if i + 1 < length (allGroups E GRID_APPEARANCE s)
                 then Some (allGroups E GRID_APPEARANCE s ! (i + 1)) else None)"
    by (simp add: at_index_def nat_add_distrib)
  from a have "i < length (allGroups E GRID_APPEARANCE s)" by blast
  then have "0 < length (allGroups E GRID_APPEARANCE s)" by arith
  then have z: "at_index (allGroups E GRID_APPEARANCE s) 0 = Some (allGroups E GRID_APPEARANCE s ! 0)"
    by (simp add: at_index_def)
  from assms(1) n a ix nx z
  show "findGroup E scope source_arg wrap s
                        = Inr (if i + 1 < length (allGroups E GRID_APPEARANCE s)
                               then Some (allGroups E GRID_APPEARANCE s ! (i + 1))
                               else if wrap then Some (allGroups E GRID_APPEARANCE s ! 0)
                               else None)"
    by (simp add: findGroup_def Let_def getGroups_grid sourceOrActive_def)
next
  assume a: "part_findGroup E (getPart E (OfGroup (sourceOrActive E source_arg s)) s) scope
            (sourceOrActive E source_arg s) False = Inr None
          \<and> assertGroupView E (sourceOrActive E source_arg s) s = Inr sourceGroup
          \<and> i < length (allGroups E GRID_APPEARANCE s)
          \<and> allGroups E GRID_APPEARANCE s ! i = sourceGroup
          \<and> (\<forall>j<i. allGroups E GRID_APPEARANCE s ! j \<noteq> sourceGroup)"
  assume n: "location scope = Some PREVIOUS"
  from a have ix: "indexOf (allGroups E GRID_APPEARANCE s) sourceGroup = int i"
    by (simp add: indexOf_first)
  from a have pv: "at_index (allGroups E GRID_APPEARANCE s) (int i - 1)
              = (if 0 < i then Some (allGroups E GRID_APPEARANCE s ! (i - 1)) else None)"
    by (auto simp: at_index_def nat_diff_distrib')
  from a have "i < length (allGroups E GRID_APPEARANCE s)" by blast
  then have ne: "allGroups E GRID_APPEARANCE s \<noteq> []" by auto
  then have l: "at_index (allGroups E GRID_APPEARANCE s) (int (length (allGroups E GRID_APPEARANCE s)) - 1)
             = Some (last (allGroups E GRID_APPEARANCE s))"
    by (simp add: at_index_last)
  have neg: "at_index (allGroups E GRID_APPEARANCE s) (- 1) = None"
    by (simp add: at_index_def)
  from assms(1) n a ix pv l neg
  show "findGroup E scope source_arg wrap s
                        = Inr (if 0 < i
                               then Some (allGroups E GRID_APPEARANCE s ! (i - 1))
                               else if wrap then Some (last (allGroups E GRID_APPEARANCE s))
                               else None)"
    by (simp add: findGroup_def Let_def getGroups_grid sourceOrActive_def)
qed


theorem findGroup_next_previous_witness:
  "1 < length (parts example_state)
   \<and> part_findGroup example_collaborators (getPart example_collaborators (OfGroup (Identifier 11)) example_state) \<lparr>direction = None, location = Some NEXT\<rparr> (Identifier 11) False = Inr (Some (example_view 12))
   \<and> findGroup example_collaborators \<lparr>direction = None, location = Some NEXT\<rparr> (Some (Identifier 11)) True example_state = Inr (Some (example_view 12))
   \<and> part_findGroup example_collaborators (getPart example_collaborators (OfGroup (Identifier 21)) example_state) \<lparr>direction = None, location = Some NEXT\<rparr> (Identifier 21) False = Inr None
   \<and> assertGroupView example_collaborators (Identifier 21) example_state = Inr (example_view 21)
   \<and> 5 < length (allGroups example_collaborators GRID_APPEARANCE example_state)
   \<and> allGroups example_collaborators GRID_APPEARANCE example_state ! 5 = example_view 21
   \<and> list_all (\<lambda>g. g \<noteq> example_view 21) (take 5 (allGroups example_collaborators GRID_APPEARANCE example_state))
   \<and> findGroup example_collaborators \<lparr>direction = None, location = Some NEXT\<rparr> (Some (Identifier 21)) True example_state = Inr (Some (example_view 1))
   \<and> findGroup example_collaborators \<lparr>direction = None, location = Some NEXT\<rparr> (Some (Identifier 21)) False example_state = Inr None
   \<and> part_findGroup example_collaborators (getPart example_collaborators (OfGroup (Identifier 11)) example_state) \<lparr>direction = None, location = Some PREVIOUS\<rparr> (Identifier 11) False = Inr None
   \<and> assertGroupView example_collaborators (Identifier 11) example_state = Inr (example_view 11)
   \<and> 2 < length (allGroups example_collaborators GRID_APPEARANCE example_state)
   \<and> allGroups example_collaborators GRID_APPEARANCE example_state ! 2 = example_view 11
   \<and> list_all (\<lambda>g. g \<noteq> example_view 11) (take 2 (allGroups example_collaborators GRID_APPEARANCE example_state))
   \<and> findGroup example_collaborators \<lparr>direction = None, location = Some PREVIOUS\<rparr> (Some (Identifier 11)) True example_state = Inr (Some (example_view 2))"
proof -
  have many: "1 < length (parts example_state)" by code_simp
  have ln: "location \<lparr>direction = None, location = Some NEXT\<rparr> = Some NEXT \<or> location \<lparr>direction = None, location = Some NEXT\<rparr> = Some PREVIOUS" by simp
  have lp: "location \<lparr>direction = None, location = Some PREVIOUS\<rparr> = Some NEXT \<or> location \<lparr>direction = None, location = Some PREVIOUS\<rparr> = Some PREVIOUS" by simp
  have a1: "part_findGroup example_collaborators (getPart example_collaborators (OfGroup (Identifier 11)) example_state) \<lparr>direction = None, location = Some NEXT\<rparr> (Identifier 11) False = Inr (Some (example_view 12))"
    by code_simp
  have b1: "part_findGroup example_collaborators (getPart example_collaborators (OfGroup (Identifier 21)) example_state) \<lparr>direction = None, location = Some NEXT\<rparr> (Identifier 21) False = Inr None
     \<and> assertGroupView example_collaborators (Identifier 21) example_state = Inr (example_view 21)
     \<and> 5 < length (allGroups example_collaborators GRID_APPEARANCE example_state)
     \<and> allGroups example_collaborators GRID_APPEARANCE example_state ! 5 = example_view 21
     \<and> (\<forall>j<5. allGroups example_collaborators GRID_APPEARANCE example_state ! j \<noteq> example_view 21)"
    by code_simp
  have c1: "part_findGroup example_collaborators (getPart example_collaborators (OfGroup (Identifier 11)) example_state) \<lparr>direction = None, location = Some PREVIOUS\<rparr> (Identifier 11) False = Inr None
     \<and> assertGroupView example_collaborators (Identifier 11) example_state = Inr (example_view 11)
     \<and> 2 < length (allGroups example_collaborators GRID_APPEARANCE example_state)
     \<and> allGroups example_collaborators GRID_APPEARANCE example_state ! 2 = example_view 11
     \<and> (\<forall>j<2. allGroups example_collaborators GRID_APPEARANCE example_state ! j \<noteq> example_view 11)"
    by code_simp
  have g: "allGroups example_collaborators GRID_APPEARANCE example_state = [example_view 1, example_view 2, example_view 11, example_view 12,
                  example_view 13, example_view 21]"
    by code_simp
  from findGroup_next_previous [OF many ln, where E = example_collaborators and source_arg = "Some (Identifier 11)" and g = "example_view 12" and wrap = True] a1
  have r1: "findGroup example_collaborators \<lparr>direction = None, location = Some NEXT\<rparr> (Some (Identifier 11)) True example_state = Inr (Some (example_view 12))"
    by (simp add: sourceOrActive_Some)
  from findGroup_next_previous [OF many ln, where E = example_collaborators and source_arg = "Some (Identifier 21)" and sourceGroup = "example_view 21" and i = 5 and wrap = True] b1
  have "findGroup example_collaborators \<lparr>direction = None, location = Some NEXT\<rparr> (Some (Identifier 21)) True example_state
          = Inr (if 5 + 1 < length (allGroups example_collaborators GRID_APPEARANCE example_state) then Some (allGroups example_collaborators GRID_APPEARANCE example_state ! (5 + 1))
                 else if True then Some (allGroups example_collaborators GRID_APPEARANCE example_state ! 0) else None)"
    by (simp add: sourceOrActive_Some)
  then have r2: "findGroup example_collaborators \<lparr>direction = None, location = Some NEXT\<rparr> (Some (Identifier 21)) True example_state = Inr (Some (example_view 1))"
    by (simp add: g)
  from findGroup_next_previous [OF many ln, where E = example_collaborators and source_arg = "Some (Identifier 21)" and sourceGroup = "example_view 21" and i = 5 and wrap = False] b1
  have "findGroup example_collaborators \<lparr>direction = None, location = Some NEXT\<rparr> (Some (Identifier 21)) False example_state
          = Inr (if 5 + 1 < length (allGroups example_collaborators GRID_APPEARANCE example_state) then Some (allGroups example_collaborators GRID_APPEARANCE example_state ! (5 + 1))
                 else if False then Some (allGroups example_collaborators GRID_APPEARANCE example_state ! 0) else None)"
    by (simp add: sourceOrActive_Some)
  then have r3: "findGroup example_collaborators \<lparr>direction = None, location = Some NEXT\<rparr> (Some (Identifier 21)) False example_state = Inr None"
    by (simp add: g)
  from findGroup_next_previous [OF many lp, where E = example_collaborators and source_arg = "Some (Identifier 11)" and sourceGroup = "example_view 11" and i = 2 and wrap = True] c1
  have "findGroup example_collaborators \<lparr>direction = None, location = Some PREVIOUS\<rparr> (Some (Identifier 11)) True example_state
          = Inr (if (0::nat) < 2 then Some (allGroups example_collaborators GRID_APPEARANCE example_state ! (2 - 1))
                 else if True then Some (last (allGroups example_collaborators GRID_APPEARANCE example_state)) else None)"
    by (simp add: sourceOrActive_Some)
  then have r4: "findGroup example_collaborators \<lparr>direction = None, location = Some PREVIOUS\<rparr> (Some (Identifier 11)) True example_state = Inr (Some (example_view 2))"
    by (simp add: g)
  have b2: "list_all (\<lambda>g. g \<noteq> example_view 21) (take 5 (allGroups example_collaborators GRID_APPEARANCE example_state))" by code_simp
  have c2: "list_all (\<lambda>g. g \<noteq> example_view 11) (take 2 (allGroups example_collaborators GRID_APPEARANCE example_state))" by code_simp
  from many a1 b1 c1 b2 c2 r1 r2 r3 r4 show ?thesis by blast
qed



section \<open>Focus events\<close>

lemma activeGroup_doUpdateMostRecentActive:
  "activeGroup E (doUpdateMostRecentActive p b s) = activeGroup E s"
  by (simp add: activeGroup_def activePart_def getPartByDocument_def split: option.splits)

text \<open>
  Claim C8. The focus listener of a part fires the coordinator's active-group-changed
  event, once and with the coordinator's active group, when more than one part is
  registered, and fires nothing when at most one part is registered; it fires exactly when
  more than one part is registered. In both cases the part moves to the front of the
  most-recently-active list.
\<close>

theorem onDidFocus_rebroadcast:
  "(1 < length (parts s)
      \<longrightarrow> firedActiveGroupChange (onDidFocus E p s) = firedActiveGroupChange s @ [activeGroup E s])
   \<and> (\<not> 1 < length (parts s)
      \<longrightarrow> firedActiveGroupChange (onDidFocus E p s) = firedActiveGroupChange s)
   \<and> (firedActiveGroupChange (onDidFocus E p s) \<noteq> firedActiveGroupChange s
      \<longleftrightarrow> 1 < length (parts s))
   \<and> mostRecentActiveParts (onDidFocus E p s)
        = Some p # remove1 (Some p) (mostRecentActiveParts s)"
  by (simp add: onDidFocus_def Let_def activeGroup_doUpdateMostRecentActive
      mru_doUpdateMostRecentActive)


theorem onDidFocus_rebroadcast_witness:
  "1 < length (parts example_state)
   \<and> firedActiveGroupChange (onDidFocus example_collaborators 2 example_state)
        = firedActiveGroupChange example_state @ [activeGroup example_collaborators example_state]
   \<and> \<not> 1 < length (parts (constructor 0 example_memento :: (nat, int) EditorParts))
   \<and> firedActiveGroupChange (onDidFocus example_collaborators 0 (constructor 0 example_memento))
        = firedActiveGroupChange (constructor 0 example_memento :: (nat, int) EditorParts)"
proof -
  have many: "1 < length (parts example_state)" by code_simp
  have one: "\<not> 1 < length (parts (constructor 0 example_memento :: (nat, int) EditorParts))"
    by code_simp
  from onDidFocus_rebroadcast [of example_state example_collaborators 2] many
  have r1: "firedActiveGroupChange (onDidFocus example_collaborators 2 example_state)
        = firedActiveGroupChange example_state @ [activeGroup example_collaborators example_state]"
    by blast
  from onDidFocus_rebroadcast [of "constructor 0 example_memento" example_collaborators 0] one
  have r2: "firedActiveGroupChange (onDidFocus example_collaborators 0 (constructor 0 example_memento))
        = firedActiveGroupChange (constructor 0 example_memento :: (nat, int) EditorParts)"
    by blast
  from many one r1 r2 show ?thesis by blast
qed



section \<open>Restoring the most-recently-active list\<close>

lemma createAuxiliaryEditorPart_fresh:
  "p \<notin> set (parts s) \<Longrightarrow> parts (createAuxiliaryEditorPart p s) = parts s @ [p]"
  by (simp add: createAuxiliaryEditorPart_def registerCreated_def registerPart_def super_registerPart_def Let_def)

lemma createAuxiliaryEditorPart_fields [simp]:
  "mainPart (createAuxiliaryEditorPart p s) = mainPart s"
  "workspaceMemento (createAuxiliaryEditorPart p s) = workspaceMemento s"
  "firedActiveGroupChange (createAuxiliaryEditorPart p s) = firedActiveGroupChange s"
  by (simp_all add: createAuxiliaryEditorPart_def registerCreated_def registerPart_def super_registerPart_def Let_def)

lemma registerCreated_fresh:
  "p \<notin> set (parts s) \<Longrightarrow> parts (registerCreated p l s) = parts s @ [p]"
  by (simp add: registerCreated_def registerPart_def super_registerPart_def)

lemma registerCreated_fields [simp]:
  "mainPart (registerCreated p l s) = mainPart s"
  "workspaceMemento (registerCreated p l s) = workspaceMemento s"
  "mostRecentActiveParts (registerCreated p l s) = mostRecentActiveParts s"
  "parts (registerCreated p l s) = (if p \<in> set (parts s) then parts s else parts s @ [p])"
  by (simp_all add: registerCreated_def registerPart_def super_registerPart_def)

lemma fold_zip_outcomes:
  "fold (\<lambda>(a, outcome) st. f outcome st) (zip as os) s = fold f (take (length as) os) s"
proof (induction as arbitrary: os s)
  case Nil
  then show ?case by simp
next
  case (Cons a as)
  then show ?case by (cases os) simp_all
qed

lemma parts_fold_create:
  "distinct (List.map_filter (\<lambda>outcome. outcome) os)
   \<Longrightarrow> set (List.map_filter (\<lambda>outcome. outcome) os) \<inter> set (parts s) = {}
   \<Longrightarrow> parts (fold (\<lambda>outcome st. case outcome of Some part \<Rightarrow> registerCreated part l st
                                                      | None \<Rightarrow> st) os s)
       = parts s @ List.map_filter (\<lambda>outcome. outcome) os"
proof (induction os arbitrary: s)
  case Nil
  then show ?case by (simp add: List.map_filter_simps)
next
  case (Cons o1 os)
  show ?case
  proof (cases o1)
    case None
    with Cons show ?thesis by (simp add: List.map_filter_simps)
  next
    case (Some p)
    from Cons.prems Some have fresh: "p \<notin> set (parts s)"
      by (auto simp: List.map_filter_simps)
    from Cons.prems Some have d: "distinct (List.map_filter (\<lambda>outcome. outcome) os)"
      and np: "p \<notin> set (List.map_filter (\<lambda>outcome. outcome) os)"
      and dj: "set (List.map_filter (\<lambda>outcome. outcome) os) \<inter> set (parts s) = {}"
      by (auto simp: List.map_filter_simps)
    from fresh np dj
    have dj': "set (List.map_filter (\<lambda>outcome. outcome) os)
                 \<inter> set (parts (registerCreated p l s)) = {}"
      by (auto simp: registerCreated_fresh)
    from Cons.IH [OF d dj'] Some fresh show ?thesis
      by (simp add: List.map_filter_simps registerCreated_fresh)
  qed
qed

lemma restoreParts_restoring:
  assumes "part_willRestoreState E (mainPart s)"
    and "workspaceMemento s EDITOR_PARTS_UI_STATE_STORAGE_KEY = Some uiState"
    and "auxiliary uiState \<noteq> []"
  shows "parts (restoreParts E outcomes s) = parts (restore_created outcomes uiState s)"
    and "mostRecentActiveParts (restoreParts E outcomes s)
           = mostRecentActiveParts (restoreParts_updateMRU uiState (restore_created outcomes uiState s))"
  using assms
  by (simp_all add: restoreParts_def Let_def fold_zip_outcomes restore_created_def
      restoreParts_updateMRU_def split: option.splits)


lemma parts_restore_created:
  assumes "distinct (createdParts uiState outcomes)"
    and "set (createdParts uiState outcomes) \<inter> set (parts s) = {}"
  shows "parts (restore_created outcomes uiState s) = parts s @ createdParts uiState outcomes"
  using assms unfolding restore_created_def createdParts_def by (rule parts_fold_create)

lemma map_at_index_valid:
  "list_all (\<lambda>i. 0 \<le> i \<and> i < int (length xs)) is
   \<Longrightarrow> map (at_index xs) is = map (\<lambda>i. Some (xs ! nat i)) is"
  by (induction "is") (simp_all add: at_index_def)

text \<open>
  Claim C4. In \<open>restoreParts\<close>, when the main part restores its state and the stored
  snapshot has auxiliary entries, after the creation requests have settled: if the stored
  \<open>mru\<close> has as many entries as there are parts now, the most-recently-active list is the
  stored positions, each replaced by the part at that position of the current parts array
  (for positions that are indices of the array, the part itself); otherwise it is the
  current parts array. The parts array is the earlier one followed by the parts created,
  in the order of creation, so that from the constructor's state the fallback list is the
  main part followed by the auxiliary parts in creation order.
\<close>

theorem restoreParts_mru:
  assumes "part_willRestoreState E (mainPart s)"
    and "workspaceMemento s EDITOR_PARTS_UI_STATE_STORAGE_KEY = Some uiState"
    and "auxiliary uiState \<noteq> []"
  shows "(length (mru uiState) = length (parts (restoreParts E outcomes s))
            \<longrightarrow> mostRecentActiveParts (restoreParts E outcomes s)
                  = map (at_index (parts (restoreParts E outcomes s))) (mru uiState)
                \<and> (list_all (\<lambda>i. 0 \<le> i \<and> i < int (length (parts (restoreParts E outcomes s))))
                      (mru uiState)
                    \<longrightarrow> mostRecentActiveParts (restoreParts E outcomes s)
                          = map (\<lambda>i. Some (parts (restoreParts E outcomes s) ! nat i)) (mru uiState)))
       \<and> (length (mru uiState) \<noteq> length (parts (restoreParts E outcomes s))
            \<longrightarrow> mostRecentActiveParts (restoreParts E outcomes s)
                  = map Some (parts (restoreParts E outcomes s)))
       \<and> (distinct (createdParts uiState outcomes)
          \<and> set (createdParts uiState outcomes) \<inter> set (parts s) = {}
            \<longrightarrow> parts (restoreParts E outcomes s) = parts s @ createdParts uiState outcomes
                \<and> (parts s = [mainPart s]
                    \<and> length (mru uiState) \<noteq> 1 + length (createdParts uiState outcomes)
                    \<longrightarrow> mostRecentActiveParts (restoreParts E outcomes s)
                          = Some (mainPart s) # map Some (createdParts uiState outcomes)))"
proof -
  let ?s2 = "restore_created outcomes uiState s"
  have p: "parts (restoreParts E outcomes s) = parts ?s2"
    and m: "mostRecentActiveParts (restoreParts E outcomes s)
              = mostRecentActiveParts (restoreParts_updateMRU uiState ?s2)"
    using assms by (rule restoreParts_restoring)+
  have eq: "length (mru uiState) = length (parts ?s2)
              \<Longrightarrow> mostRecentActiveParts (restoreParts E outcomes s)
                    = map (at_index (parts ?s2)) (mru uiState)"
    by (simp add: m restoreParts_updateMRU_def)
  have ne: "length (mru uiState) \<noteq> length (parts ?s2)
              \<Longrightarrow> mostRecentActiveParts (restoreParts E outcomes s) = map Some (parts ?s2)"
    by (simp add: m restoreParts_updateMRU_def)
  have cr: "parts ?s2 = parts s @ createdParts uiState outcomes"
    if "distinct (createdParts uiState outcomes)"
      and "set (createdParts uiState outcomes) \<inter> set (parts s) = {}"
    using that by (rule parts_restore_created)
  show ?thesis
  proof (intro conjI impI)
    assume "length (mru uiState) = length (parts (restoreParts E outcomes s))"
    with eq p show "mostRecentActiveParts (restoreParts E outcomes s)
                  = map (at_index (parts (restoreParts E outcomes s))) (mru uiState)"
      by simp
  next
    assume "length (mru uiState) = length (parts (restoreParts E outcomes s))"
      and "list_all (\<lambda>i. 0 \<le> i \<and> i < int (length (parts (restoreParts E outcomes s))))
                      (mru uiState)"
    with eq p show "mostRecentActiveParts (restoreParts E outcomes s)
                          = map (\<lambda>i. Some (parts (restoreParts E outcomes s) ! nat i)) (mru uiState)"
      by (simp add: map_at_index_valid)
  next
    assume "length (mru uiState) \<noteq> length (parts (restoreParts E outcomes s))"
    with ne p show "mostRecentActiveParts (restoreParts E outcomes s)
                  = map Some (parts (restoreParts E outcomes s))"
      by simp
  next
    assume "distinct (createdParts uiState outcomes)
          \<and> set (createdParts uiState outcomes) \<inter> set (parts s) = {}"
    with cr p show "parts (restoreParts E outcomes s) = parts s @ createdParts uiState outcomes"
      by simp
  next
    assume a: "distinct (createdParts uiState outcomes)
          \<and> set (createdParts uiState outcomes) \<inter> set (parts s) = {}"
      and b: "parts s = [mainPart s]
                    \<and> length (mru uiState) \<noteq> 1 + length (createdParts uiState outcomes)"
    from a cr have c: "parts ?s2 = parts s @ createdParts uiState outcomes" by simp
    with b have "length (mru uiState) \<noteq> length (parts ?s2)" by simp
    from ne [OF this] c b
    show "mostRecentActiveParts (restoreParts E outcomes s)
                          = Some (mainPart s) # map Some (createdParts uiState outcomes)"
      by simp
  qed
qed

theorem restoreParts_mru_witness:
  "part_willRestoreState example_collaborators (mainPart example_restoring)
   \<and> workspaceMemento example_restoring EDITOR_PARTS_UI_STATE_STORAGE_KEY = Some example_saved
   \<and> auxiliary example_saved \<noteq> []
   \<and> length (mru example_saved) = length (parts (restoreParts example_collaborators [Some 1, Some 2] example_restoring))
   \<and> list_all (\<lambda>i. 0 \<le> i \<and> i < int (length (parts (restoreParts example_collaborators [Some 1, Some 2] example_restoring)))) (mru example_saved)
   \<and> mostRecentActiveParts (restoreParts example_collaborators [Some 1, Some 2] example_restoring) = map (\<lambda>i. Some (parts (restoreParts example_collaborators [Some 1, Some 2] example_restoring) ! nat i)) (mru example_saved)
   \<and> length (mru example_saved) \<noteq> length (parts (restoreParts example_collaborators [Some 1, None] example_restoring))
   \<and> mostRecentActiveParts (restoreParts example_collaborators [Some 1, None] example_restoring) = map Some (parts (restoreParts example_collaborators [Some 1, None] example_restoring))
   \<and> distinct (createdParts example_saved [Some 1, None])
   \<and> set (createdParts example_saved [Some 1, None]) \<inter> set (parts example_restoring) = {}
   \<and> parts example_restoring = [mainPart example_restoring]
   \<and> length (mru example_saved) \<noteq> 1 + length (createdParts example_saved [Some 1, None])
   \<and> mostRecentActiveParts (restoreParts example_collaborators [Some 1, None] example_restoring) = Some (mainPart example_restoring) # map Some (createdParts example_saved [Some 1, None])"
proof -
  have h1: "part_willRestoreState example_collaborators (mainPart example_restoring)" by code_simp
  have h2: "workspaceMemento example_restoring EDITOR_PARTS_UI_STATE_STORAGE_KEY = Some example_saved"
    by (simp add: example_restoring_def constructor_def registerPart_def super_registerPart_def)
  have h3: "auxiliary example_saved \<noteq> []" by (simp add: example_saved_def)
  have a1: "length (mru example_saved) = length (parts (restoreParts example_collaborators [Some 1, Some 2] example_restoring))" by code_simp
  have a2: "list_all (\<lambda>i. 0 \<le> i \<and> i < int (length (parts (restoreParts example_collaborators [Some 1, Some 2] example_restoring)))) (mru example_saved)"
    by code_simp
  have b1: "length (mru example_saved) \<noteq> length (parts (restoreParts example_collaborators [Some 1, None] example_restoring))" by code_simp
  have c1: "distinct (createdParts example_saved [Some 1, None])" by code_simp
  have c2: "set (createdParts example_saved [Some 1, None]) \<inter> set (parts example_restoring) = {}" by code_simp
  have c3: "parts example_restoring = [mainPart example_restoring]" by code_simp
  have c4: "length (mru example_saved) \<noteq> 1 + length (createdParts example_saved [Some 1, None])" by code_simp
  from restoreParts_mru [OF h1 h2 h3, of "[Some 1, Some 2]"] a1 a2
  have r1: "mostRecentActiveParts (restoreParts example_collaborators [Some 1, Some 2] example_restoring) = map (\<lambda>i. Some (parts (restoreParts example_collaborators [Some 1, Some 2] example_restoring) ! nat i)) (mru example_saved)"
    by blast
  from restoreParts_mru [OF h1 h2 h3, of "[Some 1, None]"] b1
  have r2: "mostRecentActiveParts (restoreParts example_collaborators [Some 1, None] example_restoring) = map Some (parts (restoreParts example_collaborators [Some 1, None] example_restoring))"
    by blast
  from restoreParts_mru [OF h1 h2 h3, of "[Some 1, None]"] c1 c2 c3 c4
  have r3: "mostRecentActiveParts (restoreParts example_collaborators [Some 1, None] example_restoring) = Some (mainPart example_restoring) # map Some (createdParts example_saved [Some 1, None])"
    by blast
  from h1 h2 h3 a1 a2 b1 c1 c2 c3 c4 r1 r2 r3 show ?thesis by blast
qed



section \<open>Saving state\<close>

lemma at_index_indexOf_parts:
  assumes "p \<in> set ps"
  shows "at_index ps (indexOf (map Some ps) (Some p)) = Some p"
proof -
  from assms have "Some p \<in> set (map Some ps)" by simp
  from indexOf_present [OF this]
  have b: "0 \<le> indexOf (map Some ps) (Some p)"
    "indexOf (map Some ps) (Some p) < int (length ps)"
    and v: "map Some ps ! nat (indexOf (map Some ps) (Some p)) = Some p"
    by simp_all
  from b have "nat (indexOf (map Some ps) (Some p)) < length ps" by simp
  with v have "ps ! nat (indexOf (map Some ps) (Some p)) = p" by simp
  with b show ?thesis by (simp add: at_index_def)
qed

text \<open>
  Claim C5. \<open>saveState\<close> with no auxiliary part registered removes the entry stored under
  the storage key, whatever it was, and writes nothing in its place. With at least one
  auxiliary part registered the entry stored is a snapshot with one auxiliary entry per
  registered part other than the main part, in the order of the parts array and holding
  that part's state, and with \<open>mru\<close> the list of the positions in the parts array of the
  entries of the most-recently-active list (the position of a registered part reads that
  part back). Other keys of the memento are left as they were.
\<close>

theorem saveState_snapshot:
  "(auxiliaryParts s = []
      \<longrightarrow> workspaceMemento (saveState E s) EDITOR_PARTS_UI_STATE_STORAGE_KEY = None)
   \<and> (auxiliaryParts s \<noteq> []
      \<longrightarrow> (\<exists>u. workspaceMemento (saveState E s) EDITOR_PARTS_UI_STATE_STORAGE_KEY = Some u
             \<and> length (auxiliary u) = length (auxiliaryParts s)
             \<and> map state (auxiliary u) = map (part_createState E) (auxiliaryParts s)
             \<and> mru u = map (indexOf (map Some (parts s))) (mostRecentActiveParts s)
             \<and> (\<forall>k<length (mostRecentActiveParts s). \<forall>p.
                   mostRecentActiveParts s ! k = Some p \<and> p \<in> set (parts s)
                   \<longrightarrow> at_index (parts s) (mru u ! k) = Some p)))
   \<and> (\<forall>key. key \<noteq> EDITOR_PARTS_UI_STATE_STORAGE_KEY
        \<longrightarrow> workspaceMemento (saveState E s) key = workspaceMemento s key)"
proof (intro conjI impI allI)
  assume "auxiliaryParts s = []"
  then show "workspaceMemento (saveState E s) EDITOR_PARTS_UI_STATE_STORAGE_KEY = None"
    by (simp add: saveState_def auxiliaryParts_def Let_def)
next
  assume ne: "auxiliaryParts s \<noteq> []"
  let ?u = "the (workspaceMemento (saveState E s) EDITOR_PARTS_UI_STATE_STORAGE_KEY)"
  from ne have st: "workspaceMemento (saveState E s) EDITOR_PARTS_UI_STATE_STORAGE_KEY = Some ?u"
    by (simp add: saveState_def auxiliaryParts_def Let_def)
  from ne have len: "length (auxiliary ?u) = length (auxiliaryParts s)"
    by (simp add: saveState_def auxiliaryParts_def Let_def)
  from ne have sts: "map state (auxiliary ?u) = map (part_createState E) (auxiliaryParts s)"
    by (simp add: saveState_def auxiliaryParts_def Let_def comp_def)
  from ne have m: "mru ?u = map (indexOf (map Some (parts s))) (mostRecentActiveParts s)"
    by (simp add: saveState_def auxiliaryParts_def Let_def)
  have rb: "\<forall>k<length (mostRecentActiveParts s). \<forall>p.
                   mostRecentActiveParts s ! k = Some p \<and> p \<in> set (parts s)
                   \<longrightarrow> at_index (parts s) (mru ?u ! k) = Some p"
    by (simp add: m at_index_indexOf_parts)
  from st len sts m rb
  show "\<exists>u. workspaceMemento (saveState E s) EDITOR_PARTS_UI_STATE_STORAGE_KEY = Some u
             \<and> length (auxiliary u) = length (auxiliaryParts s)
             \<and> map state (auxiliary u) = map (part_createState E) (auxiliaryParts s)
             \<and> mru u = map (indexOf (map Some (parts s))) (mostRecentActiveParts s)
             \<and> (\<forall>k<length (mostRecentActiveParts s). \<forall>p.
                   mostRecentActiveParts s ! k = Some p \<and> p \<in> set (parts s)
                   \<longrightarrow> at_index (parts s) (mru u ! k) = Some p)"
    by blast
next
  fix key
  assume "key \<noteq> EDITOR_PARTS_UI_STATE_STORAGE_KEY"
  then show "workspaceMemento (saveState E s) key = workspaceMemento s key"
    by (simp add: saveState_def Let_def)
qed

theorem saveState_snapshot_witness:
  "auxiliaryParts example_restoring = []
   \<and> workspaceMemento example_restoring EDITOR_PARTS_UI_STATE_STORAGE_KEY = Some example_saved
   \<and> workspaceMemento (saveState example_collaborators example_restoring) EDITOR_PARTS_UI_STATE_STORAGE_KEY = None
   \<and> auxiliaryParts (onDidFocus example_collaborators 2 example_state) \<noteq> []
   \<and> (\<exists>u. workspaceMemento (saveState example_collaborators (onDidFocus example_collaborators 2 example_state)) EDITOR_PARTS_UI_STATE_STORAGE_KEY = Some u
          \<and> length (auxiliary u) = length (auxiliaryParts (onDidFocus example_collaborators 2 example_state))
          \<and> map state (auxiliary u) = map (part_createState example_collaborators) (auxiliaryParts (onDidFocus example_collaborators 2 example_state))
          \<and> mru u = map (indexOf (map Some (parts (onDidFocus example_collaborators 2 example_state)))) (mostRecentActiveParts (onDidFocus example_collaborators 2 example_state)))
   \<and> ''other.key'' \<noteq> EDITOR_PARTS_UI_STATE_STORAGE_KEY
   \<and> workspaceMemento (saveState example_collaborators (onDidFocus example_collaborators 2 example_state)) ''other.key''
        = workspaceMemento (onDidFocus example_collaborators 2 example_state) ''other.key''"
proof -
  have z: "auxiliaryParts example_restoring = []" by code_simp
  have old: "workspaceMemento example_restoring EDITOR_PARTS_UI_STATE_STORAGE_KEY = Some example_saved"
    by (simp add: example_restoring_def constructor_def registerPart_def super_registerPart_def)
  have ne: "auxiliaryParts (onDidFocus example_collaborators 2 example_state) \<noteq> []" by code_simp
  have k: "''other.key'' \<noteq> EDITOR_PARTS_UI_STATE_STORAGE_KEY" by (simp add: EDITOR_PARTS_UI_STATE_STORAGE_KEY_def)
  from saveState_snapshot [of example_restoring example_collaborators] z
  have r1: "workspaceMemento (saveState example_collaborators example_restoring) EDITOR_PARTS_UI_STATE_STORAGE_KEY = None"
    by blast
  from saveState_snapshot [of "onDidFocus example_collaborators 2 example_state" example_collaborators] ne
  have r2: "\<exists>u. workspaceMemento (saveState example_collaborators (onDidFocus example_collaborators 2 example_state)) EDITOR_PARTS_UI_STATE_STORAGE_KEY = Some u
          \<and> length (auxiliary u) = length (auxiliaryParts (onDidFocus example_collaborators 2 example_state))
          \<and> map state (auxiliary u) = map (part_createState example_collaborators) (auxiliaryParts (onDidFocus example_collaborators 2 example_state))
          \<and> mru u = map (indexOf (map Some (parts (onDidFocus example_collaborators 2 example_state)))) (mostRecentActiveParts (onDidFocus example_collaborators 2 example_state))"
    by blast
  from saveState_snapshot [of "onDidFocus example_collaborators 2 example_state" example_collaborators] k
  have r3: "workspaceMemento (saveState example_collaborators (onDidFocus example_collaborators 2 example_state)) ''other.key''
        = workspaceMemento (onDidFocus example_collaborators 2 example_state) ''other.key''"
    by blast
  from z old ne k r1 r2 r3 show ?thesis by blast
qed



section \<open>Labels of the auxiliary parts\<close>

lemma relabel_other:
  "p \<notin> set xs \<Longrightarrow> groupsLabel (forEach_from i xs relabel s) p = groupsLabel s p"
  by (induction xs arbitrary: i s) (auto simp: notifyGroupsLabelChange_def)

lemma relabel_mainPart: "mainPart (forEach_from i xs relabel s) = mainPart s"
  by (simp add: relabel_frame)

lemma relabel_labels:
  "distinct xs \<Longrightarrow> k < length xs \<Longrightarrow> xs ! k \<noteq> mainPart s
   \<Longrightarrow> groupsLabel (forEach_from i xs relabel s) (xs ! k) = Some (getGroupsLabel (i + k))"
proof (induction xs arbitrary: i s k)
  case Nil
  then show ?case by simp
next
  case (Cons x xs)
  show ?case
  proof (cases k)
    case 0
    with Cons.prems have "x \<notin> set xs" and "x \<noteq> mainPart s" by simp_all
    with 0 show ?thesis
      by (simp add: relabel_other notifyGroupsLabelChange_def)
  next
    case (Suc j)
    with Cons.prems have d: "distinct xs" and j: "j < length xs" and n: "xs ! j \<noteq> mainPart s"
      by simp_all
    have "mainPart (relabel x i s) = mainPart s"
      by (simp add: notifyGroupsLabelChange_def)
    with n have n': "xs ! j \<noteq> mainPart (relabel x i s)" by simp
    from Cons.IH [OF d j n', of "Suc i"] Suc show ?thesis by simp
  qed
qed

lemma unregisterPart_labels_ok:
  assumes "distinct (parts s)"
  shows "labels_ok (unregisterPart p s)"
  unfolding labels_ok_def
proof (intro allI impI)
  fix k
  assume k: "k < length (parts (unregisterPart p s))"
    and n: "parts (unregisterPart p s) ! k \<noteq> mainPart (unregisterPart p s)"
  let ?xs = "removeAll p (parts s)"
  let ?s1 = "super_unregisterPart p s"
  from assms have d: "distinct ?xs" by (simp add: distinct_removeAll)
  from k have k': "k < length ?xs" by simp
  from n have n': "?xs ! k \<noteq> mainPart ?s1" by (simp add: super_unregisterPart_def)
  have g: "groupsLabel (unregisterPart p s) = groupsLabel (forEach_from 0 ?xs relabel ?s1)"
    by (simp add: unregisterPart_def forEach_def super_unregisterPart_def)
  from relabel_labels [OF d k' n', of 0]
  have "groupsLabel (unregisterPart p s) (?xs ! k) = Some (getGroupsLabel k)"
    by (simp add: g)
  then show "groupsLabel (unregisterPart p s) (parts (unregisterPart p s) ! k) = Some (getGroupsLabel k)"
    by simp
qed

lemma unregisterPart_registry_ok:
  assumes "registry_ok s" and "p \<noteq> mainPart s"
  shows "registry_ok (unregisterPart p s)"
proof -
  from assms obtain rest where r: "parts s = mainPart s # rest"
    unfolding registry_ok_def by (cases "parts s") auto
  with assms show ?thesis
    by (simp add: registry_ok_def distinct_removeAll)
qed

lemma auxiliaryParts_tl:
  assumes "registry_ok s"
  shows "parts s = mainPart s # auxiliaryParts s"
proof -
  from assms obtain rest where r: "parts s = mainPart s # rest"
    unfolding registry_ok_def by (cases "parts s") auto
  with assms have "mainPart s \<notin> set rest" by (simp add: registry_ok_def)
  then have "filter (\<lambda>part. part \<noteq> mainPart s) rest = rest"
    by (auto simp: filter_id_conv)
  with r show ?thesis by (simp add: auxiliaryParts_def)
qed

lemma auxiliary_labels:
  assumes "registry_ok s" and "labels_ok s" and "i < length (auxiliaryParts s)"
  shows "groupsLabel s (auxiliaryParts s ! i) = Some (Localize ''groupLabel'' ''Window {0}'' (i + 2))"
proof -
  from auxiliaryParts_tl [OF assms(1)] have p: "parts s = mainPart s # auxiliaryParts s" .
  then have len: "length (parts s) = Suc (length (auxiliaryParts s))"
    by (metis length_Cons)
  from p have nth: "parts s ! Suc i = auxiliaryParts s ! i"
    by (metis nth_Cons_Suc)
  from assms(1) p have "mainPart s \<notin> set (auxiliaryParts s)"
    by (metis distinct.simps(2) registry_ok_def)
  with assms(3) have ne: "auxiliaryParts s ! i \<noteq> mainPart s"
    by (metis nth_mem)
  from assms(3) len have "Suc i < length (parts s)" by simp
  with assms(2) nth ne
  have "groupsLabel s (parts s ! Suc i) = Some (getGroupsLabel (Suc i))"
    unfolding labels_ok_def by metis
  with nth show ?thesis by (simp add: getGroupsLabel_def)
qed


lemma onDidFocus_fields [simp]:
  "parts (onDidFocus E p s) = parts s"
  "mainPart (onDidFocus E p s) = mainPart s"
  "groupsLabel (onDidFocus E p s) = groupsLabel s"
  by (simp_all add: onDidFocus_def Let_def)

lemma restoreParts_updateMRU_fields [simp]:
  "parts (restoreParts_updateMRU u s) = parts s"
  "mainPart (restoreParts_updateMRU u s) = mainPart s"
  "groupsLabel (restoreParts_updateMRU u s) = groupsLabel s"
  by (simp_all add: restoreParts_updateMRU_def)

lemma dispose_part_fields [simp]:
  "parts (dispose_part p s) = removeAll p (parts s)"
  "mainPart (dispose_part p s) = mainPart s"
  "groupsLabel (dispose_part p s) = groupsLabel (unregisterPart p s)"
  by (simp_all add: dispose_part_def)

lemma constructor_fields [simp]:
  "parts (constructor main memento) = [main]"
  "mainPart (constructor main memento) = main"
  "mostRecentActiveParts (constructor main memento) = [Some main]"
  by (simp_all add: constructor_def registerPart_def super_registerPart_def)

lemma registry_ok_step:
  assumes "enabled s e" and "registry_ok s"
  shows "registry_ok (step E s e)"
proof (cases e)
  case (CreateAuxiliary p)
  with assms show ?thesis
    by (simp add: registry_ok_def createAuxiliaryEditorPart_fresh)
next
  case (Focus p)
  with assms show ?thesis by (simp add: registry_ok_def)
next
  case (Dispose p)
  with assms have "registry_ok (unregisterPart p s)"
    by (simp add: unregisterPart_registry_ok)
  with Dispose show ?thesis by (simp add: registry_ok_def)
next
  case (RestoreMRU u)
  with assms show ?thesis by (simp add: registry_ok_def)
qed

lemma groupsLabel_createAuxiliaryEditorPart:
  "groupsLabel (createAuxiliaryEditorPart p s)
     = (groupsLabel s)(p \<mapsto> getGroupsLabel (length (parts s)))"
  by (simp add: createAuxiliaryEditorPart_def registerCreated_def registerPart_def super_registerPart_def Let_def)

lemma labels_ok_create:
  assumes "p \<notin> set (parts s)" and "labels_ok s"
  shows "labels_ok (createAuxiliaryEditorPart p s)"
  unfolding labels_ok_def
proof (intro allI impI)
  fix k
  assume k: "k < length (parts (createAuxiliaryEditorPart p s))"
    and n: "parts (createAuxiliaryEditorPart p s) ! k \<noteq> mainPart (createAuxiliaryEditorPart p s)"
  from assms(1) have ps: "parts (createAuxiliaryEditorPart p s) = parts s @ [p]"
    by (rule createAuxiliaryEditorPart_fresh)
  show "groupsLabel (createAuxiliaryEditorPart p s) (parts (createAuxiliaryEditorPart p s) ! k)
          = Some (getGroupsLabel k)"
  proof (cases "k < length (parts s)")
    case True
    then have e: "(parts s @ [p]) ! k = parts s ! k" by (simp add: nth_append)
    from True assms(1) have "parts s ! k \<noteq> p" by (metis nth_mem)
    moreover from n e ps have "parts s ! k \<noteq> mainPart s" by simp
    with assms(2) True have "groupsLabel s (parts s ! k) = Some (getGroupsLabel k)"
      unfolding labels_ok_def by blast
    ultimately show ?thesis
      by (simp add: ps e groupsLabel_createAuxiliaryEditorPart)
  next
    case False
    with k ps have "k = length (parts s)" by simp
    then show ?thesis
      by (simp add: ps groupsLabel_createAuxiliaryEditorPart)
  qed
qed

lemma labels_ok_step:
  assumes "enabled s e" and "registry_ok s" and "labels_ok s"
  shows "labels_ok (step E s e)"
proof (cases e)
  case (CreateAuxiliary p)
  with assms show ?thesis by (simp add: labels_ok_create)
next
  case (Focus p)
  with assms(3) show ?thesis by (simp add: labels_ok_def)
next
  case (Dispose p)
  from assms(2) have "distinct (parts s)" by (simp add: registry_ok_def)
  then have "labels_ok (unregisterPart p s)" by (rule unregisterPart_labels_ok)
  with Dispose show ?thesis by (simp add: labels_ok_def)
next
  case (RestoreMRU u)
  with assms(3) show ?thesis by (simp add: labels_ok_def)
qed

lemma labels_ok_run:
  "history_ok enabled E s h \<Longrightarrow> registry_ok s \<Longrightarrow> labels_ok s
   \<Longrightarrow> registry_ok (run E s h) \<and> labels_ok (run E s h)"
proof (induction h arbitrary: s)
  case Nil
  then show ?case by simp
next
  case (Cons e h)
  from Cons.prems have en: "enabled s e" and rest: "history_ok enabled E (step E s e) h"
    by simp_all
  from en Cons.prems(2) have r: "registry_ok (step E s e)" by (rule registry_ok_step)
  from en Cons.prems(2,3) have l: "labels_ok (step E s e)" by (rule labels_ok_step)
  from Cons.IH [OF rest r l] show ?case by simp
qed

lemma constructor_ok:
  "registry_ok (constructor main memento)" "labels_ok (constructor main memento)"
  by (simp_all add: registry_ok_def labels_ok_def)

text \<open>
  Claim C3, as the code has it. The labels of the auxiliary parts are dense ordinals
  starting at 2: the label is computed from the position in the whole parts array, where
  the main part holds position 0, so the auxiliary part at position \<open>i\<close> among the
  auxiliary parts carries the label with ordinal \<open>i + 2\<close>. This holds in every state that
  a history of the handlers reaches from the constructor, each creation computing its
  label and registering its part before the next handler runs, and after every
  unregistration of an auxiliary part whatever the labels were before: each remaining
  auxiliary part is given its label anew. With three auxiliary parts labelled 2, 3, 4, unregistering the
  first leaves the other two labelled 2 and 3.
\<close>

theorem auxiliary_labels_dense:
  "(history_ok enabled E (constructor main memento) h
      \<and> i < length (auxiliaryParts (run E (constructor main memento) h))
      \<longrightarrow> groupsLabel (run E (constructor main memento) h)
            (auxiliaryParts (run E (constructor main memento) h) ! i)
            = Some (Localize ''groupLabel'' ''Window {0}'' (i + 2)))
   \<and> (registry_ok s \<and> p \<noteq> mainPart s \<and> i < length (auxiliaryParts (unregisterPart p s))
      \<longrightarrow> groupsLabel (unregisterPart p s) (auxiliaryParts (unregisterPart p s) ! i)
            = Some (Localize ''groupLabel'' ''Window {0}'' (i + 2)))"
proof (intro conjI impI)
  assume a: "history_ok enabled E (constructor main memento) h
      \<and> i < length (auxiliaryParts (run E (constructor main memento) h))"
  then have "registry_ok (run E (constructor main memento) h)
      \<and> labels_ok (run E (constructor main memento) h)"
    using labels_ok_run [OF _ constructor_ok] by blast
  with a show "groupsLabel (run E (constructor main memento) h)
            (auxiliaryParts (run E (constructor main memento) h) ! i)
            = Some (Localize ''groupLabel'' ''Window {0}'' (i + 2))"
    by (simp add: auxiliary_labels)
next
  assume a: "registry_ok s \<and> p \<noteq> mainPart s \<and> i < length (auxiliaryParts (unregisterPart p s))"
  then have r: "registry_ok (unregisterPart p s)" by (simp add: unregisterPart_registry_ok)
  from a have "distinct (parts s)" by (simp add: registry_ok_def)
  then have l: "labels_ok (unregisterPart p s)" by (rule unregisterPart_labels_ok)
  from r l a show "groupsLabel (unregisterPart p s) (auxiliaryParts (unregisterPart p s) ! i)
            = Some (Localize ''groupLabel'' ''Window {0}'' (i + 2))"
    by (simp add: auxiliary_labels)
qed

theorem auxiliary_labels_dense_witness:
  "history_ok enabled example_collaborators (constructor 0 example_memento) [CreateAuxiliary 1, CreateAuxiliary 2, CreateAuxiliary 3, Dispose 1]
   \<and> 1 < length (auxiliaryParts (run example_collaborators (constructor 0 example_memento) [CreateAuxiliary 1, CreateAuxiliary 2, CreateAuxiliary 3, Dispose 1]))
   \<and> groupsLabel (run example_collaborators (constructor 0 example_memento) [CreateAuxiliary 1, CreateAuxiliary 2, CreateAuxiliary 3, Dispose 1]) (auxiliaryParts (run example_collaborators (constructor 0 example_memento) [CreateAuxiliary 1, CreateAuxiliary 2, CreateAuxiliary 3, Dispose 1]) ! 1)
        = Some (Localize ''groupLabel'' ''Window {0}'' (1 + 2))
   \<and> registry_ok example_state
   \<and> 1 \<noteq> mainPart example_state
   \<and> 0 < length (auxiliaryParts (unregisterPart 1 example_state))
   \<and> groupsLabel (unregisterPart 1 example_state) (auxiliaryParts (unregisterPart 1 example_state) ! 0)
        = Some (Localize ''groupLabel'' ''Window {0}'' (0 + 2))"
proof -
  have h: "history_ok enabled example_collaborators (constructor 0 example_memento) [CreateAuxiliary 1, CreateAuxiliary 2, CreateAuxiliary 3, Dispose 1]"
    by code_simp
  have i1: "1 < length (auxiliaryParts (run example_collaborators (constructor 0 example_memento) [CreateAuxiliary 1, CreateAuxiliary 2, CreateAuxiliary 3, Dispose 1]))" by code_simp
  have r: "registry_ok example_state" by code_simp
  have n: "1 \<noteq> mainPart example_state" by code_simp
  have i0: "0 < length (auxiliaryParts (unregisterPart 1 example_state))" by code_simp
  from auxiliary_labels_dense [of example_collaborators 0 example_memento "[CreateAuxiliary 1, CreateAuxiliary 2, CreateAuxiliary 3, Dispose 1]" 1] h i1
  have r1: "groupsLabel (run example_collaborators (constructor 0 example_memento) [CreateAuxiliary 1, CreateAuxiliary 2, CreateAuxiliary 3, Dispose 1]) (auxiliaryParts (run example_collaborators (constructor 0 example_memento) [CreateAuxiliary 1, CreateAuxiliary 2, CreateAuxiliary 3, Dispose 1]) ! 1)
        = Some (Localize ''groupLabel'' ''Window {0}'' (1 + 2))"
    by blast
  from auxiliary_labels_dense [where s = example_state and p = 1 and i = 0] r n i0
  have r2: "groupsLabel (unregisterPart 1 example_state) (auxiliaryParts (unregisterPart 1 example_state) ! 0)
        = Some (Localize ''groupLabel'' ''Window {0}'' (0 + 2))"
    by blast
  from h i1 r n i0 r1 r2 show ?thesis by blast
qed

theorem auxiliary_labels_from_one_counterexample:
  "auxiliaryParts example_state = [1, 2, 3]
   \<and> map_option nls_arg (groupsLabel example_state (auxiliaryParts example_state ! 0)) = Some 2
   \<and> auxiliaryParts (unregisterPart 1 example_state) = [2, 3]
   \<and> map_option nls_arg (groupsLabel (unregisterPart 1 example_state) (auxiliaryParts (unregisterPart 1 example_state) ! 0)) = Some 2
   \<and> map_option nls_arg (groupsLabel (unregisterPart 1 example_state) (auxiliaryParts (unregisterPart 1 example_state) ! 1)) = Some 3
   \<and> map_option nls_arg (groupsLabel (unregisterPart 1 example_state) (auxiliaryParts (unregisterPart 1 example_state) ! 0)) \<noteq> Some (0 + 1)"
  by code_simp



section \<open>The main part in the most-recently-active list\<close>

lemma valid_positions_cover:
  assumes "distinct is" and "length is = n"
    and "list_all (\<lambda>i. 0 \<le> i \<and> i < int n) is"
  shows "set is = {0..<int n}"
proof -
  from assms(3) have sub: "set is \<subseteq> {0..<int n}" by (auto simp: list_all_iff)
  from assms(1,2) have "card (set is) = n" by (simp add: distinct_card)
  then have "card (set is) = card {0..<int n}" by simp
  with sub show ?thesis by (simp add: card_subset_eq)
qed

lemma rebuild_set:
  assumes "distinct is" and "length is = length ps"
    and "list_all (\<lambda>i. 0 \<le> i \<and> i < int (length ps)) is"
  shows "set (map (at_index ps) is) = Some ` set ps"
proof -
  from assms have cover: "set is = {0..<int (length ps)}" by (rule valid_positions_cover)
  from assms(3) have m: "map (at_index ps) is = map (\<lambda>i. Some (ps ! nat i)) is"
    by (rule map_at_index_valid)
  have "(\<lambda>i. ps ! nat i) ` {0..<int (length ps)} = set ps"
  proof (intro set_eqI iffI)
    fix x
    assume "x \<in> (\<lambda>i. ps ! nat i) ` {0..<int (length ps)}"
    then obtain i where "0 \<le> i" "i < int (length ps)" "x = ps ! nat i" by auto
    then show "x \<in> set ps" by simp
  next
    fix x
    assume "x \<in> set ps"
    then obtain k where k: "k < length ps" "ps ! k = x" by (auto simp: in_set_conv_nth)
    then have "int k \<in> {0..<int (length ps)}" "ps ! nat (int k) = x" by simp_all
    then show "x \<in> (\<lambda>i. ps ! nat i) ` {0..<int (length ps)}" by (metis imageI)
  qed
  then have "(\<lambda>i. Some (ps ! nat i)) ` set is = Some ` set ps"
    by (simp add: cover image_image [symmetric, of Some "\<lambda>i. ps ! nat i"])
  with m show ?thesis by simp
qed

lemma rebuild_distinct:
  assumes "distinct is" and "distinct ps"
    and "list_all (\<lambda>i. 0 \<le> i \<and> i < int (length ps)) is"
  shows "distinct (map (at_index ps) is)"
proof -
  from assms(3) have m: "map (at_index ps) is = map (\<lambda>i. Some (ps ! nat i)) is"
    by (rule map_at_index_valid)
  have "inj_on (\<lambda>i. Some (ps ! nat i)) (set is)"
  proof (rule inj_onI)
    fix i j
    assume i: "i \<in> set is" and j: "j \<in> set is"
      and e: "Some (ps ! nat i) = Some (ps ! nat j)"
    from assms(3) i j have b: "0 \<le> i" "i < int (length ps)" "0 \<le> j" "j < int (length ps)"
      by (auto simp: list_all_iff)
    then have "nat i < length ps" "nat j < length ps" by simp_all
    with assms(2) e have "nat i = nat j" by (simp add: nth_eq_iff_index_eq)
    with b show "i = j" by simp
  qed
  with assms(1) have "distinct (map (\<lambda>i. Some (ps ! nat i)) is)"
    by (simp add: distinct_map)
  with m show ?thesis by (simp only:)
qed


lemma registry_ok_main:
  assumes "registry_ok s"
  shows "mainPart s \<in> set (parts s)" and "distinct (parts s)"
proof -
  from assms have "parts s \<noteq> []" "hd (parts s) = mainPart s" by (simp_all add: registry_ok_def)
  then show "mainPart s \<in> set (parts s)" by (metis hd_in_set)
  from assms show "distinct (parts s)" by (simp add: registry_ok_def)
qed

lemma mru_ok_restore:
  assumes "registry_ok s" and "positions_valid s (RestoreMRU u)" and "distinct (mru u)"
  shows "mru_ok (restoreParts_updateMRU u s)"
proof (cases "length (mru u) = length (parts s)")
  case True
  from assms(1) have m: "mainPart s \<in> set (parts s)" and d: "distinct (parts s)"
    by (rule registry_ok_main)+
  from assms(2) have v: "list_all (\<lambda>i. 0 \<le> i \<and> i < int (length (parts s))) (mru u)"
    by simp
  from assms(3) True v have "set (map (at_index (parts s)) (mru u)) = Some ` set (parts s)"
    by (rule rebuild_set)
  moreover from assms(3) d v have "distinct (map (at_index (parts s)) (mru u))"
    by (rule rebuild_distinct)
  ultimately show ?thesis using True m
    by (simp add: mru_ok_def restoreParts_updateMRU_def)
next
  case False
  from assms(1) have "mainPart s \<in> set (parts s)" and "distinct (parts s)"
    by (rule registry_ok_main)+
  with False show ?thesis
    by (simp add: mru_ok_def restoreParts_updateMRU_def distinct_map)
qed

lemma mru_ok_focus:
  assumes "p \<in> set (parts s)" and "mru_ok s"
  shows "mru_ok (onDidFocus E p s)"
proof -
  from assms(2) have m: "Some (mainPart s) \<in> set (mostRecentActiveParts s)"
    and d: "distinct (mostRecentActiveParts s)"
    and r: "set (mostRecentActiveParts s) \<subseteq> Some ` set (parts s)"
    by (simp_all add: mru_ok_def)
  from m have "Some (mainPart s) \<in> set (Some p # remove1 (Some p) (mostRecentActiveParts s))"
    by (cases "p = mainPart s") simp_all
  moreover from d have "distinct (Some p # remove1 (Some p) (mostRecentActiveParts s))"
    by simp
  moreover from r assms(1) d
  have "set (Some p # remove1 (Some p) (mostRecentActiveParts s)) \<subseteq> Some ` set (parts s)"
    by auto
  ultimately show ?thesis by (simp add: mru_ok_def mru_onDidFocus)
qed

lemma mru_ok_dispose:
  assumes "p \<noteq> mainPart s" and "mru_ok s"
  shows "mru_ok (dispose_part p s)"
proof -
  from assms(2) have m: "Some (mainPart s) \<in> set (mostRecentActiveParts s)"
    and d: "distinct (mostRecentActiveParts s)"
    and r: "set (mostRecentActiveParts s) \<subseteq> Some ` set (parts s)"
    by (simp_all add: mru_ok_def)
  from m assms(1) have "Some (mainPart s) \<in> set (remove1 (Some p) (mostRecentActiveParts s))"
    by simp
  moreover from d have "distinct (remove1 (Some p) (mostRecentActiveParts s))" by simp
  moreover from r d
  have "set (remove1 (Some p) (mostRecentActiveParts s)) \<subseteq> Some ` set (removeAll p (parts s))"
    by auto
  ultimately show ?thesis by (simp add: mru_ok_def mru_dispose_part)
qed

lemma mru_ok_create:
  assumes "mru_ok s" and "p \<notin> set (parts s)"
  shows "mru_ok (createAuxiliaryEditorPart p s)"
  using assms
  by (auto simp: mru_ok_def mru_createAuxiliaryEditorPart createAuxiliaryEditorPart_fresh)

lemma mru_ok_step:
  assumes "restorable s e" and "registry_ok s" and "mru_ok s"
  shows "mru_ok (step E s e)"
proof (cases e)
  case (CreateAuxiliary p)
  with assms show ?thesis by (simp add: restorable_def mru_ok_create)
next
  case (Focus p)
  with assms show ?thesis by (simp add: restorable_def mru_ok_focus)
next
  case (Dispose p)
  with assms show ?thesis by (simp add: restorable_def mru_ok_dispose)
next
  case (RestoreMRU u)
  with assms have "positions_valid s (RestoreMRU u)" and "distinct (mru u)"
    by (simp_all add: restorable_def)
  with assms(2) have "mru_ok (restoreParts_updateMRU u s)" by (rule mru_ok_restore)
  with RestoreMRU show ?thesis by simp
qed

lemma mru_ok_run:
  "history_ok restorable E s h \<Longrightarrow> registry_ok s \<Longrightarrow> mru_ok s
   \<Longrightarrow> registry_ok (run E s h) \<and> mru_ok (run E s h)"
proof (induction h arbitrary: s)
  case Nil
  then show ?case by simp
next
  case (Cons e h)
  from Cons.prems have g: "restorable s e" and rest: "history_ok restorable E (step E s e) h"
    by simp_all
  from g have "enabled s e" by (simp add: restorable_def)
  from this Cons.prems(2) have r: "registry_ok (step E s e)" by (rule registry_ok_step)
  from g Cons.prems(2,3) have m: "mru_ok (step E s e)" by (rule mru_ok_step)
  from Cons.IH [OF rest r m] show ?case by simp
qed

lemma constructor_mru_ok: "mru_ok (constructor main memento)"
  by (simp add: mru_ok_def)

lemma mru_ok_head:
  assumes "mru_ok s"
  shows "mostRecentActiveParts s \<noteq> []"
    and "\<exists>p\<in>set (parts s). firstOrDefault (mostRecentActiveParts s) = Some p"
proof -
  from assms show ne: "mostRecentActiveParts s \<noteq> []" by (auto simp: mru_ok_def)
  then obtain x xs where c: "mostRecentActiveParts s = x # xs"
    by (cases "mostRecentActiveParts s") auto
  with assms obtain p where "p \<in> set (parts s)" "x = Some p"
    by (auto simp: mru_ok_def)
  with c show "\<exists>p\<in>set (parts s). firstOrDefault (mostRecentActiveParts s) = Some p"
    by (simp add: firstOrDefault_def at_index_def)
qed

lemma run_append: "run E s (h @ h') = run E (run E s h) h'"
  by (induction h arbitrary: s) simp_all

lemma workspaceMemento_step: "workspaceMemento (step E s e) = workspaceMemento s"
  by (cases e) (simp_all add: onDidFocus_def Let_def dispose_part_def restoreParts_updateMRU_def)

lemma workspaceMemento_run: "workspaceMemento (run E s h) = workspaceMemento s"
  by (induction h arbitrary: s) (simp_all add: workspaceMemento_step)

lemma mainPart_step: "mainPart (step E s e) = mainPart s"
  by (cases e) simp_all

lemma mainPart_run: "mainPart (run E s h) = mainPart s"
  by (induction h arbitrary: s) (simp_all add: mainPart_step)

lemma parts_createAuxiliaryEditorPart:
  "parts (createAuxiliaryEditorPart p s) = (if p \<in> set (parts s) then parts s else parts s @ [p])"
  by (simp add: createAuxiliaryEditorPart_def Let_def)

lemma fold_outcomes_run:
  "parts s = parts s' \<Longrightarrow> mostRecentActiveParts s = mostRecentActiveParts s'
   \<Longrightarrow> mainPart s = mainPart s'
   \<Longrightarrow> parts (fold (\<lambda>outcome st. case outcome of Some part \<Rightarrow> registerCreated part l st
                                                      | None \<Rightarrow> st) os s)
         = parts (run E s' (map CreateAuxiliary (List.map_filter (\<lambda>outcome. outcome) os)))
       \<and> mostRecentActiveParts (fold (\<lambda>outcome st. case outcome of
                                                      Some part \<Rightarrow> registerCreated part l st
                                                    | None \<Rightarrow> st) os s)
         = mostRecentActiveParts
             (run E s' (map CreateAuxiliary (List.map_filter (\<lambda>outcome. outcome) os)))
       \<and> mainPart (fold (\<lambda>outcome st. case outcome of Some part \<Rightarrow> registerCreated part l st
                                                       | None \<Rightarrow> st) os s)
         = mainPart (run E s' (map CreateAuxiliary (List.map_filter (\<lambda>outcome. outcome) os)))"
proof (induction os arbitrary: s s')
  case Nil
  then show ?case by (simp add: List.map_filter_simps)
next
  case (Cons o1 os)
  show ?case
  proof (cases o1)
    case None
    with Cons.IH [OF Cons.prems] show ?thesis by (simp add: List.map_filter_simps)
  next
    case (Some p)
    from Cons.prems
    have "parts (registerCreated p l s) = parts (createAuxiliaryEditorPart p s')"
      and "mostRecentActiveParts (registerCreated p l s)
             = mostRecentActiveParts (createAuxiliaryEditorPart p s')"
      and "mainPart (registerCreated p l s) = mainPart (createAuxiliaryEditorPart p s')"
      by (simp_all add: parts_createAuxiliaryEditorPart mru_createAuxiliaryEditorPart)
    from Cons.IH [OF this] Some show ?thesis by (simp add: List.map_filter_simps)
  qed
qed

lemma restoreParts_updated_run:
  "parts (restoreParts_updateMRU u (restore_created outcomes u s))
     = parts (run E s (restore_history u outcomes))"
  "mostRecentActiveParts (restoreParts_updateMRU u (restore_created outcomes u s))
     = mostRecentActiveParts (run E s (restore_history u outcomes))"
  "mainPart (restoreParts_updateMRU u (restore_created outcomes u s))
     = mainPart (run E s (restore_history u outcomes))"
proof -
  let ?os = "take (length (auxiliary u)) outcomes"
  let ?a = "restore_created outcomes u s"
  let ?b = "run E s (map CreateAuxiliary (createdParts u outcomes))"
  from fold_outcomes_run [of s s _ ?os E, OF refl refl refl]
  have p: "parts ?a = parts ?b" and m: "mainPart ?a = mainPart ?b"
    unfolding restore_created_def createdParts_def by blast+
  have r: "run E s (restore_history u outcomes) = restoreParts_updateMRU u ?b"
    by (simp add: restore_history_def run_append)
  show "parts (restoreParts_updateMRU u ?a) = parts (run E s (restore_history u outcomes))"
    by (simp add: r p restoreParts_updateMRU_def)
  show "mostRecentActiveParts (restoreParts_updateMRU u ?a)
          = mostRecentActiveParts (run E s (restore_history u outcomes))"
    by (simp add: r p restoreParts_updateMRU_def)
  show "mainPart (restoreParts_updateMRU u ?a) = mainPart (run E s (restore_history u outcomes))"
    by (simp add: r m restoreParts_updateMRU_def)
qed

lemma restoreParts_focus:
  assumes "part_willRestoreState E (mainPart s)"
    and "workspaceMemento s EDITOR_PARTS_UI_STATE_STORAGE_KEY = Some uiState"
    and "auxiliary uiState \<noteq> []"
    and "firstOrDefault (mostRecentActiveParts
           (restoreParts_updateMRU uiState (restore_created outcomes uiState s))) = Some p"
  shows "focusRequested (restoreParts E outcomes s) = Some (part_activeGroup E p)"
  using assms
  by (simp add: restoreParts_def Let_def fold_zip_outcomes restore_created_def)

text \<open>
  Claim C10, as the code has it. Along every history of the handlers from the constructor
  in which each restoration update is given stored positions that are pairwise different
  indices into the parts array, the main part is an element of the most-recently-active
  list, the list is not empty, and its head is a registered part. In particular, when
  \<open>restoreParts\<close> restores such a snapshot after such a history, the list it leaves holds
  the main part and the group it asks to take focus is the active group of a registered
  part.
\<close>

theorem mru_keeps_main_part:
  "(history_ok restorable E (constructor main memento) h
      \<longrightarrow> Some main \<in> set (mostRecentActiveParts (run E (constructor main memento) h))
          \<and> mostRecentActiveParts (run E (constructor main memento) h) \<noteq> []
          \<and> (\<exists>p\<in>set (parts (run E (constructor main memento) h)).
                firstOrDefault (mostRecentActiveParts (run E (constructor main memento) h)) = Some p))
   \<and> (history_ok restorable E (constructor main memento) (h @ restore_history u outcomes)
      \<and> part_willRestoreState E main
      \<and> memento EDITOR_PARTS_UI_STATE_STORAGE_KEY = Some u
      \<and> auxiliary u \<noteq> []
      \<longrightarrow> Some main \<in> set (mostRecentActiveParts (restoreParts E outcomes (run E (constructor main memento) h)))
          \<and> (\<exists>p\<in>set (parts (restoreParts E outcomes (run E (constructor main memento) h))).
                focusRequested (restoreParts E outcomes (run E (constructor main memento) h))
                  = Some (part_activeGroup E p)))"
proof (intro conjI impI)
  assume "history_ok restorable E (constructor main memento) h"
  then have ok: "mru_ok (run E (constructor main memento) h)"
    using mru_ok_run [OF _ constructor_ok(1) constructor_mru_ok] by blast
  then have "Some (mainPart (run E (constructor main memento) h)) \<in> set (mostRecentActiveParts (run E (constructor main memento) h))"
    by (simp add: mru_ok_def)
  then show "Some main \<in> set (mostRecentActiveParts (run E (constructor main memento) h))"
    by (simp add: mainPart_run)
  from ok show "mostRecentActiveParts (run E (constructor main memento) h) \<noteq> []" by (rule mru_ok_head)
  from ok show "\<exists>p\<in>set (parts (run E (constructor main memento) h)).
                firstOrDefault (mostRecentActiveParts (run E (constructor main memento) h)) = Some p"
    by (rule mru_ok_head)
next
  assume a: "history_ok restorable E (constructor main memento) (h @ restore_history u outcomes)
      \<and> part_willRestoreState E main
      \<and> memento EDITOR_PARTS_UI_STATE_STORAGE_KEY = Some u
      \<and> auxiliary u \<noteq> []"
  let ?s = "run E (constructor main memento) h"
  let ?s1 = "restoreParts_updateMRU u (restore_created outcomes u ?s)"
  let ?r = "run E (constructor main memento) (h @ restore_history u outcomes)"
  have r: "?r = run E ?s (restore_history u outcomes)" by (simp add: run_append)
  have s1: "parts ?s1 = parts ?r" "mostRecentActiveParts ?s1 = mostRecentActiveParts ?r"
    "mainPart ?s1 = mainPart ?r"
    unfolding r by (rule restoreParts_updated_run)+
  from a have "history_ok restorable E (constructor main memento) (h @ restore_history u outcomes)"
    by blast
  then have "mru_ok ?r"
    using mru_ok_run [OF _ constructor_ok(1) constructor_mru_ok] by blast
  then have ok: "mru_ok ?s1" by (simp only: mru_ok_def s1)
  have "mainPart ?r = main" by (simp only: mainPart_run constructor_fields)
  then have mp: "mainPart ?s1 = main" by (simp only: s1)
  from a have w: "part_willRestoreState E (mainPart ?s)"
    and m: "workspaceMemento ?s EDITOR_PARTS_UI_STATE_STORAGE_KEY = Some u"
    and x: "auxiliary u \<noteq> []"
    by (simp_all add: mainPart_run workspaceMemento_run constructor_def registerPart_def
        super_registerPart_def)
  from w m x have p: "parts (restoreParts E outcomes ?s) = parts (restore_created outcomes u ?s)"
    and l: "mostRecentActiveParts (restoreParts E outcomes ?s) = mostRecentActiveParts ?s1"
    by (rule restoreParts_restoring)+
  from ok mp l show "Some main \<in> set (mostRecentActiveParts (restoreParts E outcomes ?s))"
    by (simp add: mru_ok_def)
  from mru_ok_head(2) [OF ok] obtain q where q: "q \<in> set (parts ?s1)"
    and hd: "firstOrDefault (mostRecentActiveParts ?s1) = Some q" by blast
  from w m x hd have "focusRequested (restoreParts E outcomes ?s) = Some (part_activeGroup E q)"
    by (rule restoreParts_focus)
  moreover from q p have "q \<in> set (parts (restoreParts E outcomes ?s))" by simp
  ultimately show "\<exists>p\<in>set (parts (restoreParts E outcomes ?s)).
                focusRequested (restoreParts E outcomes ?s) = Some (part_activeGroup E p)"
    by blast
qed

theorem mru_keeps_main_part_witness:
  "history_ok restorable example_collaborators (constructor 0 (Map.empty(EDITOR_PARTS_UI_STATE_STORAGE_KEY \<mapsto> example_saved))) [CreateAuxiliary 1, Focus 1, CreateAuxiliary 2, Dispose 1, Focus 2]
   \<and> Some 0 \<in> set (mostRecentActiveParts (run example_collaborators (constructor 0 (Map.empty(EDITOR_PARTS_UI_STATE_STORAGE_KEY \<mapsto> example_saved))) [CreateAuxiliary 1, Focus 1, CreateAuxiliary 2, Dispose 1, Focus 2]))
   \<and> mostRecentActiveParts (run example_collaborators (constructor 0 (Map.empty(EDITOR_PARTS_UI_STATE_STORAGE_KEY \<mapsto> example_saved))) [CreateAuxiliary 1, Focus 1, CreateAuxiliary 2, Dispose 1, Focus 2]) \<noteq> []
   \<and> (\<exists>p\<in>set (parts (run example_collaborators (constructor 0 (Map.empty(EDITOR_PARTS_UI_STATE_STORAGE_KEY \<mapsto> example_saved))) [CreateAuxiliary 1, Focus 1, CreateAuxiliary 2, Dispose 1, Focus 2])). firstOrDefault (mostRecentActiveParts (run example_collaborators (constructor 0 (Map.empty(EDITOR_PARTS_UI_STATE_STORAGE_KEY \<mapsto> example_saved))) [CreateAuxiliary 1, Focus 1, CreateAuxiliary 2, Dispose 1, Focus 2])) = Some p)
   \<and> history_ok restorable example_collaborators (constructor 0 (Map.empty(EDITOR_PARTS_UI_STATE_STORAGE_KEY \<mapsto> example_saved))) ([Focus 0] @ restore_history example_saved [Some 1, Some 2])
   \<and> part_willRestoreState example_collaborators 0
   \<and> (Map.empty(EDITOR_PARTS_UI_STATE_STORAGE_KEY \<mapsto> example_saved)) EDITOR_PARTS_UI_STATE_STORAGE_KEY = Some example_saved
   \<and> auxiliary example_saved \<noteq> []
   \<and> Some 0 \<in> set (mostRecentActiveParts (restoreParts example_collaborators [Some 1, Some 2] (run example_collaborators (constructor 0 (Map.empty(EDITOR_PARTS_UI_STATE_STORAGE_KEY \<mapsto> example_saved))) [Focus 0])))
   \<and> (\<exists>p\<in>set (parts (restoreParts example_collaborators [Some 1, Some 2] (run example_collaborators (constructor 0 (Map.empty(EDITOR_PARTS_UI_STATE_STORAGE_KEY \<mapsto> example_saved))) [Focus 0]))). focusRequested (restoreParts example_collaborators [Some 1, Some 2] (run example_collaborators (constructor 0 (Map.empty(EDITOR_PARTS_UI_STATE_STORAGE_KEY \<mapsto> example_saved))) [Focus 0])) = Some (part_activeGroup example_collaborators p))"
proof -
  have h1: "history_ok restorable example_collaborators (constructor 0 (Map.empty(EDITOR_PARTS_UI_STATE_STORAGE_KEY \<mapsto> example_saved))) [CreateAuxiliary 1, Focus 1, CreateAuxiliary 2, Dispose 1, Focus 2]"
    by code_simp
  have h2: "history_ok restorable example_collaborators (constructor 0 (Map.empty(EDITOR_PARTS_UI_STATE_STORAGE_KEY \<mapsto> example_saved))) ([Focus 0] @ restore_history example_saved [Some 1, Some 2])"
    by code_simp
  have w: "part_willRestoreState example_collaborators 0" by code_simp
  have m: "(Map.empty(EDITOR_PARTS_UI_STATE_STORAGE_KEY \<mapsto> example_saved)) EDITOR_PARTS_UI_STATE_STORAGE_KEY = Some example_saved" by simp
  have x: "auxiliary example_saved \<noteq> []" by (simp add: example_saved_def)
  from mru_keeps_main_part [of example_collaborators 0 "Map.empty(EDITOR_PARTS_UI_STATE_STORAGE_KEY \<mapsto> example_saved)" "[CreateAuxiliary 1, Focus 1, CreateAuxiliary 2, Dispose 1, Focus 2]" example_saved "[Some 1, Some 2]"] h1
  have r1: "Some 0 \<in> set (mostRecentActiveParts (run example_collaborators (constructor 0 (Map.empty(EDITOR_PARTS_UI_STATE_STORAGE_KEY \<mapsto> example_saved))) [CreateAuxiliary 1, Focus 1, CreateAuxiliary 2, Dispose 1, Focus 2]))
   \<and> mostRecentActiveParts (run example_collaborators (constructor 0 (Map.empty(EDITOR_PARTS_UI_STATE_STORAGE_KEY \<mapsto> example_saved))) [CreateAuxiliary 1, Focus 1, CreateAuxiliary 2, Dispose 1, Focus 2]) \<noteq> []
   \<and> (\<exists>p\<in>set (parts (run example_collaborators (constructor 0 (Map.empty(EDITOR_PARTS_UI_STATE_STORAGE_KEY \<mapsto> example_saved))) [CreateAuxiliary 1, Focus 1, CreateAuxiliary 2, Dispose 1, Focus 2])). firstOrDefault (mostRecentActiveParts (run example_collaborators (constructor 0 (Map.empty(EDITOR_PARTS_UI_STATE_STORAGE_KEY \<mapsto> example_saved))) [CreateAuxiliary 1, Focus 1, CreateAuxiliary 2, Dispose 1, Focus 2])) = Some p)"
    by blast
  from mru_keeps_main_part [of example_collaborators 0 "Map.empty(EDITOR_PARTS_UI_STATE_STORAGE_KEY \<mapsto> example_saved)" "[Focus 0]" example_saved "[Some 1, Some 2]"] h2 w m x
  have r2: "Some 0 \<in> set (mostRecentActiveParts (restoreParts example_collaborators [Some 1, Some 2] (run example_collaborators (constructor 0 (Map.empty(EDITOR_PARTS_UI_STATE_STORAGE_KEY \<mapsto> example_saved))) [Focus 0])))
   \<and> (\<exists>p\<in>set (parts (restoreParts example_collaborators [Some 1, Some 2] (run example_collaborators (constructor 0 (Map.empty(EDITOR_PARTS_UI_STATE_STORAGE_KEY \<mapsto> example_saved))) [Focus 0]))). focusRequested (restoreParts example_collaborators [Some 1, Some 2] (run example_collaborators (constructor 0 (Map.empty(EDITOR_PARTS_UI_STATE_STORAGE_KEY \<mapsto> example_saved))) [Focus 0])) = Some (part_activeGroup example_collaborators p))"
    by blast
  from h1 h2 w m x r1 r2 show ?thesis by blast
qed

theorem mru_without_main_counterexample:
  "workspaceMemento example_restoring_repeated EDITOR_PARTS_UI_STATE_STORAGE_KEY = Some example_saved_repeated
   \<and> mru example_saved_repeated = [1, 1]
   \<and> parts (restoreParts example_collaborators [Some 1] example_restoring_repeated) = [0, 1]
   \<and> positions_valid (restore_created [Some 1] example_saved_repeated example_restoring_repeated)
        (RestoreMRU example_saved_repeated)
   \<and> mostRecentActiveParts (restoreParts example_collaborators [Some 1] example_restoring_repeated) = [Some 1, Some 1]
   \<and> Some (mainPart (restoreParts example_collaborators [Some 1] example_restoring_repeated)) \<notin> set (mostRecentActiveParts (restoreParts example_collaborators [Some 1] example_restoring_repeated))"
  by code_simp

section \<open>The mutations of the most-recently-active list\<close>

text \<open>
  Claim C2, as the code has it. The most-recently-active list changes in three ways. A
  part's focus event takes the part out of the list if it is there and puts it at the
  front; disposing a part's registration takes it out if it is there and does not insert
  it; and the restoration update replaces the list, by the stored positions read in the
  parts array or by the parts array. Creating a part leaves the list as it is. Hence on a
  list without duplicates, for two different parts \<open>P\<close> and \<open>Q\<close>, after \<open>focus(P)\<close>,
  \<open>focus(Q)\<close>, \<open>unregister(Q)\<close> the head is \<open>P\<close> and \<open>Q\<close> is not an element; a list
  without duplicates stays so along every history without a restoration update; and
  from the constructor the list has no duplicates along every history in which each
  restoration update is given pairwise different indices into the parts array.
\<close>

theorem mru_mutations:
  "mostRecentActiveParts (onDidFocus E P s) = Some P # remove1 (Some P) (mostRecentActiveParts s)
   \<and> mostRecentActiveParts (dispose_part P s) = remove1 (Some P) (mostRecentActiveParts s)
   \<and> mostRecentActiveParts (createAuxiliaryEditorPart P s) = mostRecentActiveParts s
   \<and> mostRecentActiveParts (restoreParts_updateMRU u s)
        = (if length (mru u) = length (parts s) then map (at_index (parts s)) (mru u)
           else map Some (parts s))
   \<and> (distinct (mostRecentActiveParts s) \<and> list_all no_restore h
        \<longrightarrow> distinct (mostRecentActiveParts (run E s h)))
   \<and> (history_ok restorable E (constructor main memento) h'
        \<longrightarrow> distinct (mostRecentActiveParts (run E (constructor main memento) h')))
   \<and> (distinct (mostRecentActiveParts s) \<and> P \<noteq> Q
        \<longrightarrow> (\<exists>rest. mostRecentActiveParts (dispose_part Q (onDidFocus E Q (onDidFocus E P s))) = Some P # rest
                    \<and> Some Q \<notin> set rest))"
proof -
  have seq: "mostRecentActiveParts (dispose_part Q (onDidFocus E Q (onDidFocus E P s)))
               = Some P # remove1 (Some Q) (remove1 (Some P) (mostRecentActiveParts s))"
    if "P \<noteq> Q"
    using that by (simp add: mru_onDidFocus mru_dispose_part)
  have gone: "Some Q \<notin> set (remove1 (Some Q) (remove1 (Some P) (mostRecentActiveParts s)))"
    if "distinct (mostRecentActiveParts s)"
    using that by simp
  have hist: "distinct (mostRecentActiveParts (run E (constructor main memento) h'))"
    if "history_ok restorable E (constructor main memento) h'"
  proof -
    from that have "mru_ok (run E (constructor main memento) h')"
      using mru_ok_run [OF _ constructor_ok(1) constructor_mru_ok] by blast
    then show ?thesis by (simp add: mru_ok_def)
  qed
  have upd: "mostRecentActiveParts (restoreParts_updateMRU u s)
        = (if length (mru u) = length (parts s) then map (at_index (parts s)) (mru u)
           else map Some (parts s))"
    by (simp add: restoreParts_updateMRU_def)
  from seq gone hist upd show ?thesis
    by (simp add: mru_onDidFocus mru_dispose_part mru_createAuxiliaryEditorPart distinct_run)
qed

theorem mru_mutations_witness:
  "distinct (mostRecentActiveParts example_state)
   \<and> list_all no_restore [Focus 1, Focus 2, Dispose 2 :: (nat, int) event]
   \<and> distinct (mostRecentActiveParts (run example_collaborators example_state [Focus 1, Focus 2, Dispose 2]))
   \<and> history_ok restorable example_collaborators (constructor 0 example_memento) [CreateAuxiliary 1, CreateAuxiliary 2, RestoreMRU example_saved, Focus 1, Dispose 2]
   \<and> distinct (mostRecentActiveParts (run example_collaborators (constructor 0 example_memento) [CreateAuxiliary 1, CreateAuxiliary 2, RestoreMRU example_saved, Focus 1, Dispose 2]))
   \<and> (1 :: part) \<noteq> 2
   \<and> (\<exists>rest. mostRecentActiveParts
          (dispose_part 2 (onDidFocus example_collaborators 2 (onDidFocus example_collaborators 1 example_state))) = Some 1 # rest
        \<and> Some 2 \<notin> set rest)"
proof -
  have d: "distinct (mostRecentActiveParts example_state)" by code_simp
  have n: "list_all no_restore [Focus 1, Focus 2, Dispose 2 :: (nat, int) event]" by simp
  have r: "history_ok restorable example_collaborators (constructor 0 example_memento) [CreateAuxiliary 1, CreateAuxiliary 2, RestoreMRU example_saved, Focus 1, Dispose 2]"
    by code_simp
  have pq: "(1 :: part) \<noteq> 2" by simp
  from mru_mutations [of example_collaborators 1 example_state _ "[Focus 1, Focus 2, Dispose 2]" 0 example_memento "[CreateAuxiliary 1, CreateAuxiliary 2, RestoreMRU example_saved, Focus 1, Dispose 2]" 2] d n r pq
  show ?thesis by blast
qed

theorem mru_restore_repeats_counterexample:
  "mostRecentActiveParts (restoreParts example_collaborators [Some 1] example_restoring_repeated) = [Some 1, Some 1]
   \<and> \<not> distinct (mostRecentActiveParts (restoreParts example_collaborators [Some 1] example_restoring_repeated))
   \<and> (0 :: part) \<noteq> 1
   \<and> mostRecentActiveParts (dispose_part 1 (onDidFocus example_collaborators 1 (onDidFocus example_collaborators 0 (restoreParts example_collaborators [Some 1] example_restoring_repeated)))) = [Some 0, Some 1]
   \<and> Some 1 \<in> set (mostRecentActiveParts (dispose_part 1 (onDidFocus example_collaborators 1 (onDidFocus example_collaborators 0 (restoreParts example_collaborators [Some 1] example_restoring_repeated)))))
   \<and> mostRecentActiveParts (restoreParts example_collaborators [Some 1, None, Some 2, None] example_restoring_four) = [None, None, Some 0]
   \<and> \<not> distinct (mostRecentActiveParts (restoreParts example_collaborators [Some 1, None, Some 2, None] example_restoring_four))"
  by code_simp

end
